theory Spec2Isabelle
  imports Complex_Main
begin

section \<open>Tables, cells and errors\<close>

text \<open>
  The three scripts of \<^verbatim>\<open>nfl-fantasy-data-collection-analysis.py\<close> (collection,
  preprocessing, exploratory analysis) work on pandas data frames. A frame is a list of
  column labels and a list of rows; a cell is missing (\<open>NaN\<close>), a number or a string.
  Numbers are real numbers: rounding of floating point is not part of the model.
  A column has a numeric dtype when none of its cells is a string.

  Every exception the code can raise is a value \<open>Inl e\<close>; \<open>bind_err\<close> is the
  sequencing of statements, the first exception ending the run.

  The frames the scripts receive come from \<^verbatim>\<open>pd.read_html\<close> and \<^verbatim>\<open>pd.read_csv\<close>,
  which deliver rectangular tables; \<open>rectangular\<close> states that shape.
\<close>

datatype cell = NaN | Num real | Str string

datatype error =
  KeyError | ValueError | TypeError | IndexError | AttributeError
  | FileNotFoundError | InvalidIndexError

record frame =
  columns :: "string list"
  rows :: "cell list list"

definition rectangular :: "frame \<Rightarrow> bool" where
  "rectangular df = list_all (\<lambda>r. length r = length (columns df)) (rows df)"

definition bind_err :: "error + 'a \<Rightarrow> ('a \<Rightarrow> error + 'b) \<Rightarrow> error + 'b" where
  "bind_err m f = (case m of Inl e \<Rightarrow> Inl e | Inr x \<Rightarrow> f x)"

fun sequence :: "(error + 'a) list \<Rightarrow> error + 'a list" where
  "sequence [] = Inr []"
| "sequence (m # ms) =
     (case m of Inl e \<Rightarrow> Inl e
      | Inr x \<Rightarrow> (case sequence ms of Inl e \<Rightarrow> Inl e | Inr xs \<Rightarrow> Inr (x # xs)))"

fun index_of :: "string list \<Rightarrow> string \<Rightarrow> nat" where
  "index_of [] c = 0"
| "index_of (x # xs) c = (if x = c then 0 else Suc (index_of xs c))"

text \<open>
  \<^verbatim>\<open>df[c]\<close> for one label: a missing label raises KeyError. A label carried by
  several columns selects a frame, not a series, and the series operations of the
  scripts fail on it; the model raises ValueError there.
\<close>

definition get_loc :: "string list \<Rightarrow> string \<Rightarrow> error + nat" where
  "get_loc cols c =
     (if c \<notin> set cols then Inl KeyError
      else if 1 < count_list cols c then Inl ValueError
      else Inr (index_of cols c))"

definition column_at :: "frame \<Rightarrow> nat \<Rightarrow> cell list" where
  "column_at df i = map (\<lambda>r. r ! i) (rows df)"

definition getitem :: "frame \<Rightarrow> string \<Rightarrow> error + cell list" where
  "getitem df c = bind_err (get_loc (columns df) c) (\<lambda>i. Inr (column_at df i))"

text \<open>
  \<^verbatim>\<open>df[c] = values\<close>: an existing label is overwritten in place, a new one is
  appended as the last column.
\<close>

definition setitem :: "frame \<Rightarrow> string \<Rightarrow> cell list \<Rightarrow> frame" where
  "setitem df c vals =
     (if c \<in> set (columns df)
      then df\<lparr>rows := map2 (\<lambda>r v. map2 (\<lambda>l x. if l = c then v else x) (columns df) r)
                          (rows df) vals\<rparr>
      else \<lparr>columns = columns df @ [c], rows = map2 (\<lambda>r v. r @ [v]) (rows df) vals\<rparr>)"

section \<open>Collector: \<^verbatim>\<open>scrape_table\<close>\<close>

text \<open>
  The argument is the table parsed by \<^verbatim>\<open>pd.read_html(str(table))[0]\<close>; fetching and
  parsing are outside the model. Line 36 keeps the rows whose \<^verbatim>\<open>Player\<close> cell differs
  from the string \<^verbatim>\<open>'Player'\<close>, line 37 (\<^verbatim>\<open>dropna(how='all')\<close>) drops the rows whose
  cells are all missing.
\<close>

definition scrape_table :: "frame \<Rightarrow> error + frame" where
  "scrape_table table =
     bind_err (get_loc (columns table) ''Player'') (\<lambda>i.
       let df = table\<lparr>rows := filter (\<lambda>r. r ! i \<noteq> Str ''Player'') (rows table)\<rparr>;
           df = df\<lparr>rows := filter (\<lambda>r. \<not> list_all (\<lambda>c. c = NaN) r) (rows df)\<rparr>
       in Inr df)"

section \<open>Merger and scorer\<close>

subsection \<open>\<^verbatim>\<open>pd.merge(left, right, on=..., how='outer', suffixes=...)\<close>\<close>

text \<open>
  pandas drops the key columns from the right frame, renames every label that the left
  frame and the rest of the right frame share by appending the left and the right suffix,
  and puts the right columns after the left ones. An outer join keeps every left row
  (once per right row with the same key, or once with missing right cells) and every
  right row whose key no left row has (with missing left cells, the key cells taken from
  the right row). Missing keys match each other. pandas orders the rows of an outer join
  by key; the model keeps the order of the left frame followed by the unmatched right
  rows, and no statement below depends on the order of rows.
\<close>

definition key_cols :: "string list" where
  "key_cols = [''Player'', ''Tm'']"

definition key_of :: "string list \<Rightarrow> string list \<Rightarrow> cell list \<Rightarrow> cell list" where
  "key_of on cols r = map (\<lambda>k. r ! index_of cols k) on"

definition drop_labels :: "string list \<Rightarrow> string list \<Rightarrow> 'a list \<Rightarrow> 'a list" where
  "drop_labels on cols xs = map snd (filter (\<lambda>(c, x). c \<notin> set on) (zip cols xs))"

definition renamer :: "string list \<Rightarrow> string \<Rightarrow> string \<Rightarrow> string" where
  "renamer to_rename suffix x = (if x \<in> set to_rename then x @ suffix else x)"

definition overlap :: "frame \<Rightarrow> frame \<Rightarrow> string list \<Rightarrow> string list" where
  "overlap left right on =
     filter (\<lambda>c. c \<in> set (drop_labels on (columns right) (columns right))) (columns left)"

definition merge_columns :: "frame \<Rightarrow> frame \<Rightarrow> string list \<Rightarrow> string \<times> string \<Rightarrow> string list" where
  "merge_columns left right on suffixes =
     map (renamer (overlap left right on) (fst suffixes)) (columns left)
     @ map (renamer (overlap left right on) (snd suffixes))
         (drop_labels on (columns right) (columns right))"

definition matched :: "frame \<Rightarrow> frame \<Rightarrow> string list \<Rightarrow> cell list \<Rightarrow> cell list list" where
  "matched left right on l =
     filter (\<lambda>r. key_of on (columns right) r = key_of on (columns left) l) (rows right)"

definition from_left :: "frame \<Rightarrow> frame \<Rightarrow> string list \<Rightarrow> cell list \<Rightarrow> cell list list" where
  "from_left left right on l =
     (if matched left right on l = []
      then [l @ replicate (length (drop_labels on (columns right) (columns right))) NaN]
      else map (\<lambda>r. l @ drop_labels on (columns right) r) (matched left right on l))"

definition unmatched :: "frame \<Rightarrow> frame \<Rightarrow> string list \<Rightarrow> cell list list" where
  "unmatched left right on =
     filter (\<lambda>r. \<forall>l\<in>set (rows left). key_of on (columns left) l \<noteq> key_of on (columns right) r)
       (rows right)"

definition from_right :: "frame \<Rightarrow> frame \<Rightarrow> string list \<Rightarrow> cell list \<Rightarrow> cell list" where
  "from_right left right on r =
     map (\<lambda>c. if c \<in> set on then r ! index_of (columns right) c else NaN) (columns left)
     @ drop_labels on (columns right) r"

definition merge_rows :: "frame \<Rightarrow> frame \<Rightarrow> string list \<Rightarrow> cell list list" where
  "merge_rows left right on =
     concat (map (from_left left right on) (rows left))
     @ map (from_right left right on) (unmatched left right on)"

definition pd_merge :: "frame \<Rightarrow> frame \<Rightarrow> string list \<Rightarrow> string \<times> string \<Rightarrow> error + frame" where
  "pd_merge left right on suffixes =
     (if \<not> set on \<subseteq> set (columns left) \<inter> set (columns right) then Inl KeyError
      else if \<exists>k\<in>set on. 1 < count_list (columns left) k \<or> 1 < count_list (columns right) k
      then Inl ValueError
      else Inr \<lparr>columns = merge_columns left right on suffixes,
                rows = merge_rows left right on\<rparr>)"

subsection \<open>\<^verbatim>\<open>load_and_preprocess_data\<close>\<close>

text \<open>
  Line 74 joins passing with rushing with the suffixes \<^verbatim>\<open>('_pass', '_rush')\<close>. Line 75
  joins the result with receiving and passes no suffixes, so \<^verbatim>\<open>pd.merge\<close> uses its
  default \<^verbatim>\<open>suffixes=('_x', '_y')\<close>. Line 78 replaces every missing cell by 0.
\<close>

definition first_merge :: "frame \<Rightarrow> frame \<Rightarrow> error + frame" where
  "first_merge passing rushing = pd_merge passing rushing key_cols (''_pass'', ''_rush'')"

definition second_merge :: "frame \<Rightarrow> frame \<Rightarrow> error + frame" where
  "second_merge players receiving = pd_merge players receiving key_cols (''_x'', ''_y'')"

definition fillna :: "real \<Rightarrow> frame \<Rightarrow> frame" where
  "fillna v df = df\<lparr>rows := map (map (\<lambda>c. if c = NaN then Num v else c)) (rows df)\<rparr>"

definition merged_players :: "frame \<Rightarrow> frame \<Rightarrow> frame \<Rightarrow> error + frame" where
  "merged_players passing rushing receiving =
     bind_err (first_merge passing rushing) (\<lambda>players.
     bind_err (second_merge players receiving) (\<lambda>players.
     Inr (fillna 0 players)))"

text \<open>
  The numbers of lines 81 to 90 are float64 values: the first term is a product with the
  float \<^verbatim>\<open>0.04\<close>, so every sum is a float64 sum, and an \<^verbatim>\<open>int64\<close> column enters a
  float product or a sum converted to float64. \<open>fl\<close> rounds a real number to the nearest
  float64, ties to the even significand: \<open>exponent x\<close> is the integer \<open>e\<close> with
  \<^verbatim>\<open>2 ** e <= x < 2 ** (e + 1)\<close>, the spacing of the float64 values around \<open>x\<close> is
  \<^verbatim>\<open>2 ** (e - 52)\<close>, and below \<^verbatim>\<open>2 ** -1022\<close> it stays \<^verbatim>\<open>2 ** -1074\<close>. Two limits
  of the model: it has no infinity, so it follows float64 only below the overflow at
  \<^verbatim>\<open>1.8e308\<close>; and a frame does not record dtypes, so the product of an \<^verbatim>\<open>int64\<close>
  column with an integer, which the code computes in \<^verbatim>\<open>int64\<close> (exact below
  \<^verbatim>\<open>2 ** 63\<close>, wrapping beyond) before the sum converts it, is rounded here as a float64
  product. Both agree with the code for cells of magnitude up to \<^verbatim>\<open>2 ** 53\<close>, where
  every integer is a float64.
\<close>

function bit_length :: "int \<Rightarrow> int" where
  "bit_length n = (if n \<le> 0 then 0 else 1 + bit_length (n div 2))"
  by auto
termination by (relation "measure nat") auto

definition pow2 :: "int \<Rightarrow> real" where
  "pow2 e = (if 0 \<le> e then 2 ^ nat e else 1 / 2 ^ nat (- e))"

definition exponent :: "real \<Rightarrow> int" where
  "exponent x = (if 1 \<le> x then bit_length \<lfloor>x\<rfloor> - 1 else - bit_length (\<lceil>1 / x\<rceil> - 1))"

definition round_even :: "real \<Rightarrow> int" where
  "round_even y =
     (if y - of_int \<lfloor>y\<rfloor> < 1 / 2 then \<lfloor>y\<rfloor>
      else if 1 / 2 < y - of_int \<lfloor>y\<rfloor> then \<lfloor>y\<rfloor> + 1
      else if even \<lfloor>y\<rfloor> then \<lfloor>y\<rfloor> else \<lfloor>y\<rfloor> + 1)"

definition fl :: "real \<Rightarrow> real" where
  "fl x =
     (if x = 0 then 0
      else of_int (round_even (x / pow2 (max (exponent \<bar>x\<bar>) (- 1022) - 52)))
           * pow2 (max (exponent \<bar>x\<bar>) (- 1022) - 52))"

text \<open>
  Series arithmetic of lines 81 to 90, cell by cell as Python does it: a number times a
  weight is the rounded product, a missing value stays missing, a string times a float
  raises TypeError, a string times an integer is the repeated string (empty for a
  negative count), a number plus a number is the rounded sum, and a number plus a string
  raises TypeError. The terms are evaluated and added from left to right; the weights
  \<^verbatim>\<open>0.04\<close> and \<^verbatim>\<open>0.1\<close> are the float64 values nearest to 4/100 and 1/10.
\<close>

fun mul_float :: "real \<Rightarrow> cell \<Rightarrow> error + cell" where
  "mul_float w (Num x) = Inr (Num (fl (x * w)))"
| "mul_float w NaN = Inr NaN"
| "mul_float w (Str s) = Inl TypeError"

fun mul_int :: "int \<Rightarrow> cell \<Rightarrow> error + cell" where
  "mul_int w (Num x) = Inr (Num (fl (x * of_int w)))"
| "mul_int w NaN = Inr NaN"
| "mul_int w (Str s) = Inr (Str (concat (replicate (nat w) s)))"

fun add_cell :: "cell \<times> cell \<Rightarrow> error + cell" where
  "add_cell (Num x, Num y) = Inr (Num (fl (x + y)))"
| "add_cell (Num x, NaN) = Inr NaN"
| "add_cell (Num x, Str t) = Inl TypeError"
| "add_cell (NaN, Num y) = Inr NaN"
| "add_cell (NaN, NaN) = Inr NaN"
| "add_cell (NaN, Str t) = Inl TypeError"
| "add_cell (Str s, Num y) = Inl TypeError"
| "add_cell (Str s, NaN) = Inl TypeError"
| "add_cell (Str s, Str t) = Inr (Str (s @ t))"

definition times_float :: "frame \<Rightarrow> string \<Rightarrow> real \<Rightarrow> error + cell list" where
  "times_float df c w = bind_err (getitem df c) (\<lambda>s. sequence (map (mul_float w) s))"

definition times_int :: "frame \<Rightarrow> string \<Rightarrow> int \<Rightarrow> error + cell list" where
  "times_int df c w = bind_err (getitem df c) (\<lambda>s. sequence (map (mul_int w) s))"

definition series_add :: "cell list \<Rightarrow> (error + cell list) \<Rightarrow> error + cell list" where
  "series_add acc term = bind_err term (\<lambda>t. sequence (map add_cell (zip acc t)))"

definition fantasy_points :: "frame \<Rightarrow> error + cell list" where
  "fantasy_points players =
     bind_err (times_float players ''Yds_pass'' (fl (4 / 100))) (\<lambda>s.
     bind_err (series_add s (times_int players ''TD_pass'' 4)) (\<lambda>s.
     bind_err (series_add s (times_int players ''Int'' (- 2))) (\<lambda>s.
     bind_err (series_add s (times_float players ''Yds_rush'' (fl (1 / 10)))) (\<lambda>s.
     bind_err (series_add s (times_int players ''TD_rush'' 6)) (\<lambda>s.
     bind_err (series_add s (times_int players ''Rec'' 1)) (\<lambda>s.
     bind_err (series_add s (times_float players ''Yds'' (fl (1 / 10)))) (\<lambda>s.
     series_add s (times_int players ''TD'' 6))))))))"

text \<open>
  The body of \<^verbatim>\<open>load_and_preprocess_data\<close> after the three files are read
  (\<open>score_players\<close>), and the function itself. \<open>raw year\<close> is what \<^verbatim>\<open>pd.read_csv\<close>
  delivers for the three files of a season, \<open>None\<close> when a file is missing.
\<close>

definition score_players :: "frame \<Rightarrow> frame \<Rightarrow> frame \<Rightarrow> error + frame" where
  "score_players passing rushing receiving =
     bind_err (merged_players passing rushing receiving) (\<lambda>players.
     bind_err (fantasy_points players) (\<lambda>points.
     Inr (setitem players ''FantasyPoints'' points)))"

definition load_and_preprocess_data ::
    "(int \<Rightarrow> (frame \<times> frame \<times> frame) option) \<Rightarrow> int \<Rightarrow> error + frame" where
  "load_and_preprocess_data raw year =
     (case raw year of
        None \<Rightarrow> Inl FileNotFoundError
      | Some (passing, rushing, receiving) \<Rightarrow> score_players passing rushing receiving)"

text \<open>
  Notions the statements about the merged frame use. \<open>table_keys\<close> are the
  (player, team) pairs of a table, \<open>row_cell\<close> is the cell of a row under a label,
  \<open>number_of\<close> the number in a numeric cell. By
  \<open>merge_columns\<close> a row of the merged frame holds the passing columns first, then the
  rushing columns without the keys, then the receiving columns without the keys:
  \<open>passing_cells\<close> (without the key cells), \<open>rushing_cells\<close> and \<open>receiving_cells\<close>
  are these three parts of a row.
\<close>

definition table_keys :: "frame \<Rightarrow> cell list list" where
  "table_keys df = map (key_of key_cols (columns df)) (rows df)"

definition row_cell :: "frame \<Rightarrow> cell list \<Rightarrow> string \<Rightarrow> cell" where
  "row_cell df row c = row ! index_of (columns df) c"

definition other_columns :: "frame \<Rightarrow> string list" where
  "other_columns df = drop_labels key_cols (columns df) (columns df)"

definition passing_cells :: "frame \<Rightarrow> cell list \<Rightarrow> cell list" where
  "passing_cells passing row =
     drop_labels key_cols (columns passing) (take (length (columns passing)) row)"

definition rushing_cells :: "frame \<Rightarrow> frame \<Rightarrow> cell list \<Rightarrow> cell list" where
  "rushing_cells passing rushing row =
     take (length (other_columns rushing)) (drop (length (columns passing)) row)"

definition receiving_cells :: "frame \<Rightarrow> frame \<Rightarrow> cell list \<Rightarrow> cell list" where
  "receiving_cells passing rushing row =
     drop (length (columns passing) + length (other_columns rushing)) row"


text \<open>
  The formula as the specification writes it, over the real numbers, for comparison with
  \<open>fantasy_points\<close>; and the expression of lines 82 to 89 for one row, every product
  and every sum rounded as the code rounds it.
\<close>

definition spec_fantasy_points ::
    "real \<Rightarrow> real \<Rightarrow> real \<Rightarrow> real \<Rightarrow> real \<Rightarrow> real \<Rightarrow> real \<Rightarrow> real \<Rightarrow> real" where
  "spec_fantasy_points pass_yards pass_td interceptions rush_yards rush_td receptions rec_yards rec_td =
     4 / 100 * pass_yards + 4 * pass_td - 2 * interceptions + 1 / 10 * rush_yards
     + 6 * rush_td + 1 * receptions + 1 / 10 * rec_yards + 6 * rec_td"


subsection \<open>The loop over seasons, \<^verbatim>\<open>pd.concat\<close> and \<^verbatim>\<open>scale_features\<close>\<close>

text \<open>
  Lines 104 to 107: each season is loaded, stamped with its year and appended to the
  list, for the years \<^verbatim>\<open>range(current_year - 4, current_year + 1)\<close>.
\<close>

fun process_years ::
    "(int \<Rightarrow> (frame \<times> frame \<times> frame) option) \<Rightarrow> int list \<Rightarrow> error + frame list" where
  "process_years raw [] = Inr []"
| "process_years raw (year # years) =
     bind_err (load_and_preprocess_data raw year) (\<lambda>players.
     bind_err (process_years raw years) (\<lambda>all_players.
     Inr (setitem players ''Year'' (replicate (length (rows players)) (Num (of_int year)))
          # all_players)))"

text \<open>
  \<^verbatim>\<open>pd.concat(frames, ignore_index=True)\<close> stacks the rows. Frames with the same labels
  keep them; otherwise the labels are the union in order of first appearance, a frame
  with a repeated label cannot be reindexed (InvalidIndexError), and a row is missing in
  the columns its frame does not have. An empty list raises ValueError.
\<close>

definition unique :: "'a list \<Rightarrow> 'a list" where
  "unique xs = rev (remdups (rev xs))"

definition reindex :: "string list \<Rightarrow> frame \<Rightarrow> cell list list" where
  "reindex cols df =
     map (\<lambda>r. map (\<lambda>c. if c \<in> set (columns df) then r ! index_of (columns df) c else NaN) cols)
       (rows df)"

definition pd_concat :: "frame list \<Rightarrow> error + frame" where
  "pd_concat dfs =
     (if dfs = [] then Inl ValueError
      else if \<forall>df\<in>set dfs. columns df = columns (hd dfs)
      then Inr \<lparr>columns = columns (hd dfs), rows = concat (map rows dfs)\<rparr>
      else if \<exists>df\<in>set dfs. \<not> distinct (columns df) then Inl InvalidIndexError
      else let cols = unique (concat (map columns dfs))
           in Inr \<lparr>columns = cols, rows = concat (map (reindex cols) dfs)\<rparr>)"

definition all_players_df ::
    "(int \<Rightarrow> (frame \<times> frame \<times> frame) option) \<Rightarrow> int \<Rightarrow> error + frame" where
  "all_players_df raw current_year =
     bind_err (process_years raw [current_year - 4 .. current_year]) pd_concat"

text \<open>
  \<^verbatim>\<open>scale_features\<close> selects the columns of numeric dtype and rewrites them with
  scikit-learn's \<^verbatim>\<open>StandardScaler().fit_transform\<close>. The scaler computes, per column
  and over all rows, the mean and the population variance of the values that are not
  missing; its scale is the square root of the variance, except that a constant feature
  gets the scale 1 (scikit-learn: "If a variance is zero, we can't achieve unit variance,
  and the data is left as-is, giving a scaling factor of 1"). A feature counts as
  constant when its variance is at the level of the rounding of \<open>n\<close> float64 values around
  the mean: \<^verbatim>\<open>var <= n * eps * var + (n * mean * eps) ** 2\<close> with \<^verbatim>\<open>eps = 2 ** -52\<close>
  (\<^verbatim>\<open>_is_constant_feature\<close>). Every value \<open>x\<close> becomes \<open>(x - mean) / scale\<close>; a missing
  value stays missing. The scaler refuses an array without rows or without columns
  (ValueError), and selecting a label that several columns carry does not give back the
  columns one by one (ValueError).

  Two limits of the model. The numbers are real numbers: mean, variance and the rewritten
  values are exact, where the library rounds every sum and quotient to float64 and
  overflows above \<open>1.8e308\<close>; so the model says which divisor a column gets, and says
  nothing of the last digits of the rewritten values. And a frame does not record dtypes:
  \<open>is_numeric\<close> goes by the cells, so a column of dtype \<^verbatim>\<open>object\<close> that holds numbers
  only, which \<^verbatim>\<open>select_dtypes\<close> leaves out and the code leaves as it is, counts as
  numeric here.
\<close>

definition is_numeric :: "cell list \<Rightarrow> bool" where
  "is_numeric col = list_all (\<lambda>c. case c of Str s \<Rightarrow> False | _ \<Rightarrow> True) col"

definition finite_values :: "cell list \<Rightarrow> real list" where
  "finite_values col = concat (map (\<lambda>c. case c of Num x \<Rightarrow> [x] | _ \<Rightarrow> []) col)"

definition mean :: "real list \<Rightarrow> real" where
  "mean xs = sum_list xs / real (length xs)"

definition variance :: "real list \<Rightarrow> real" where
  "variance xs = mean (map (\<lambda>x. (x - mean xs)\<^sup>2) xs)"

definition float_eps :: real where
  "float_eps = 1 / 2 ^ 52"

definition is_constant_feature :: "real \<Rightarrow> real \<Rightarrow> nat \<Rightarrow> bool" where
  "is_constant_feature var m n = (var \<le> real n * float_eps * var + (real n * m * float_eps)\<^sup>2)"

definition scale_of :: "real list \<Rightarrow> real" where
  "scale_of xs =
     (if is_constant_feature (variance xs) (mean xs) (length xs) then 1 else sqrt (variance xs))"

definition transform_cell :: "real \<Rightarrow> real \<Rightarrow> cell \<Rightarrow> cell" where
  "transform_cell m s c = (case c of Num x \<Rightarrow> Num ((x - m) / s) | _ \<Rightarrow> c)"

definition numeric_cols :: "frame \<Rightarrow> nat list" where
  "numeric_cols df = filter (\<lambda>i. is_numeric (column_at df i)) [0..<length (columns df)]"

definition fit_transform :: "frame \<Rightarrow> nat \<Rightarrow> cell \<Rightarrow> cell" where
  "fit_transform df i c =
     transform_cell (mean (finite_values (column_at df i)))
       (scale_of (finite_values (column_at df i))) c"

definition scale_features :: "frame \<Rightarrow> error + frame" where
  "scale_features df =
     (if rows df = [] \<or> numeric_cols df = [] then Inl ValueError
      else if \<exists>i\<in>set (numeric_cols df). 1 < count_list (columns df) (columns df ! i)
      then Inl ValueError
      else Inr (df\<lparr>rows :=
             map (\<lambda>r. map (\<lambda>i. if i \<in> set (numeric_cols df) then fit_transform df i (r ! i)
                                else r ! i) [0..<length (columns df)])
               (rows df)\<rparr>))"

definition all_players_scaled ::
    "(int \<Rightarrow> (frame \<times> frame \<times> frame) option) \<Rightarrow> int \<Rightarrow> error + frame" where
  "all_players_scaled raw current_year =
     bind_err (all_players_df raw current_year) scale_features"

section \<open>Analyzer\<close>

text \<open>
  The argument \<open>df\<close> is the frame read from the processed file. The seaborn and
  matplotlib calls read what they are given and are not part of the model; the model has
  the statements on \<open>df\<close>: \<^verbatim>\<open>describe\<close> and \<^verbatim>\<open>corr\<close> as far as they can raise, the two
  grouped means and the assignment of line 163.

  \<^verbatim>\<open>df.groupby(by)[col].mean()\<close>: rows with a missing key are left out, a group's
  mean is the mean of its values that are not missing (missing when there is none), and
  a column of strings has no mean (TypeError). pandas orders the groups by key; the model
  keeps the order of first appearance.
\<close>

definition nanmean :: "cell list \<Rightarrow> real option" where
  "nanmean vals = (if finite_values vals = [] then None else Some (mean (finite_values vals)))"

definition group_values :: "cell list \<Rightarrow> cell list \<Rightarrow> cell \<Rightarrow> cell list" where
  "group_values keys vals k = map snd (filter (\<lambda>(k', v). k' = k) (zip keys vals))"

definition groupby_mean :: "frame \<Rightarrow> string \<Rightarrow> string \<Rightarrow> error + (cell \<times> real option) list" where
  "groupby_mean df by col =
     bind_err (getitem df by) (\<lambda>keys.
     bind_err (getitem df col) (\<lambda>vals.
     if \<not> is_numeric vals then Inl TypeError
     else Inr (map (\<lambda>k. (k, nanmean (group_values keys vals k)))
                 (unique (filter (\<lambda>k. k \<noteq> NaN) keys)))))"

text \<open>
  \<^verbatim>\<open>sort_values(ascending=False)\<close> puts the larger mean first and the missing means
  last. pandas does not fix the order of equal means; the model inserts stably.
  \<^verbatim>\<open>head(20)\<close> keeps the first 20 entries.
\<close>

fun ge_last :: "real option \<Rightarrow> real option \<Rightarrow> bool" where
  "ge_last a None = True"
| "ge_last None (Some y) = False"
| "ge_last (Some x) (Some y) = (y \<le> x)"

fun insert_desc :: "cell \<times> real option \<Rightarrow> (cell \<times> real option) list \<Rightarrow> (cell \<times> real option) list" where
  "insert_desc a [] = [a]"
| "insert_desc a (b # bs) =
     (if ge_last (snd a) (snd b) then a # b # bs else b # insert_desc a bs)"

definition sort_values_desc :: "(cell \<times> real option) list \<Rightarrow> (cell \<times> real option) list" where
  "sort_values_desc xs = foldr insert_desc xs []"

definition top_players :: "frame \<Rightarrow> error + (cell \<times> real option) list" where
  "top_players df =
     bind_err (groupby_mean df ''Player'' ''FantasyPoints'') (\<lambda>means.
     Inr (take 20 (sort_values_desc means)))"

text \<open>
  Line 163: \<^verbatim>\<open>x.split()\<close> cuts a string at runs of whitespace and gives no empty
  token; \<^verbatim>\<open>[-1]\<close> is the last token and raises IndexError on an empty list. A cell that
  is not a string has no \<^verbatim>\<open>split\<close> (AttributeError). A character of the model is a code
  point below 256, and whitespace is what Python's \<^verbatim>\<open>str.isspace\<close> has there: the ASCII
  blanks and separators, U+0085 and U+00A0. Strings with other code points are outside the
  model.
\<close>

definition is_space :: "char \<Rightarrow> bool" where
  "is_space c = (of_char c \<in> {9, 10, 11, 12, 13, 28, 29, 30, 31, 32, 133, 160 :: nat})"

fun split_from :: "string \<Rightarrow> string \<Rightarrow> string list" where
  "split_from tok [] = (if tok = [] then [] else [tok])"
| "split_from tok (c # cs) =
     (if is_space c then (if tok = [] then split_from [] cs else tok # split_from [] cs)
      else split_from (tok @ [c]) cs)"

definition str_split :: "string \<Rightarrow> string list" where
  "str_split s = split_from [] s"

definition position_of :: "cell \<Rightarrow> error + cell" where
  "position_of x =
     (case x of
        Str s \<Rightarrow> (if str_split s = [] then Inl IndexError else Inr (Str (last (str_split s))))
      | _ \<Rightarrow> Inl AttributeError)"

definition add_position :: "frame \<Rightarrow> error + frame" where
  "add_position df =
     bind_err (getitem df ''Player'') (\<lambda>players.
     bind_err (sequence (map position_of players)) (\<lambda>positions.
     Inr (setitem df ''Position'' positions)))"

text \<open>
  Line 136: \<^verbatim>\<open>df.describe()\<close> refuses a frame without columns (ValueError).

  Line 140: \<^verbatim>\<open>df.corr()\<close>. Which columns enter the correlation depends on the default
  of its parameter \<^verbatim>\<open>numeric_only\<close>, which the source leaves to the installed pandas:
  up to pandas 1.5 the columns that are not numeric are left out, and nothing is raised;
  from pandas 2.0 the default is \<^verbatim>\<open>False\<close> and the whole frame is converted to float64,
  every string cell by Python's \<^verbatim>\<open>float\<close>, which raises ValueError on a string that is
  not a number. The model takes this default as the argument \<open>numeric_only\<close> of the
  notebook. The correlation matrix itself goes to the plot and is not modelled.

  Python's \<^verbatim>\<open>float\<close> on a string: in a string that is not ASCII every whitespace
  character becomes a blank and every other character above 127 a question mark; an
  underscore must stand between two digits and is dropped; ASCII blanks at both ends are
  stripped; what is left is an optional sign followed by \<^verbatim>\<open>inf\<close>, \<^verbatim>\<open>infinity\<close> or
  \<^verbatim>\<open>nan\<close> in any case, or by a decimal numeral with at least one digit and an optional
  exponent.
\<close>

definition describe :: "frame \<Rightarrow> error + unit" where
  "describe df = (if columns df = [] then Inl ValueError else Inr ())"

definition is_digit :: "char \<Rightarrow> bool" where
  "is_digit c = (48 \<le> (of_char c :: nat) \<and> (of_char c :: nat) \<le> 57)"

definition ascii_space :: "char \<Rightarrow> bool" where
  "ascii_space c = (of_char c \<in> {9, 10, 11, 12, 13, 32 :: nat})"

definition to_ascii :: "string \<Rightarrow> string" where
  "to_ascii s =
     (if list_all (\<lambda>c. (of_char c :: nat) < 128) s then s
      else map (\<lambda>c. if is_space c then CHR '' ''
                     else if (of_char c :: nat) < 128 then c else CHR ''?'') s)"

fun without_underscores :: "char \<Rightarrow> string \<Rightarrow> string option" where
  "without_underscores prev [] = (if prev = CHR ''_'' then None else Some [])"
| "without_underscores prev (c # cs) =
     (if c = CHR ''_'' then (if is_digit prev then without_underscores c cs else None)
      else if prev = CHR ''_'' \<and> \<not> is_digit c then None
      else map_option ((#) c) (without_underscores c cs))"

definition strip :: "string \<Rightarrow> string" where
  "strip s = rev (dropWhile ascii_space (rev (dropWhile ascii_space s)))"

definition unsigned :: "string \<Rightarrow> string" where
  "unsigned s = (if s = [] then s else if hd s = CHR ''+'' \<or> hd s = CHR ''-'' then tl s else s)"

definition exponent_part :: "string \<Rightarrow> bool" where
  "exponent_part r =
     (if r = [] then True
      else (hd r = CHR ''e'' \<or> hd r = CHR ''E'') \<and> unsigned (tl r) \<noteq> []
           \<and> list_all is_digit (unsigned (tl r)))"

definition decimal_literal :: "string \<Rightarrow> bool" where
  "decimal_literal s =
     (let whole = takeWhile is_digit s; r = dropWhile is_digit s in
      if r = [] then whole \<noteq> []
      else if hd r = CHR ''.''
      then \<not> (whole = [] \<and> takeWhile is_digit (tl r) = [])
           \<and> exponent_part (dropWhile is_digit (tl r))
      else whole \<noteq> [] \<and> exponent_part r)"

definition lower :: "char \<Rightarrow> char" where
  "lower c =
     (if 65 \<le> (of_char c :: nat) \<and> (of_char c :: nat) \<le> 90
      then char_of (of_char c + 32 :: nat) else c)"

definition float_literal :: "string \<Rightarrow> bool" where
  "float_literal s =
     (case without_underscores (CHR 0x00) (to_ascii s) of
        None \<Rightarrow> False
      | Some t \<Rightarrow>
          if decimal_literal (unsigned (strip t)) then True
          else map lower (unsigned (strip t)) \<in> {''inf'', ''infinity'', ''nan''})"

definition corr :: "bool \<Rightarrow> frame \<Rightarrow> error + unit" where
  "corr numeric_only df =
     (if numeric_only then Inr ()
      else if list_all (list_all (\<lambda>c. case c of Str s \<Rightarrow> float_literal s | _ \<Rightarrow> True)) (rows df)
      then Inr () else Inl ValueError)"

text \<open>
  The notebook in the order of its statements: the summary, the correlation, the
  histogram, which reads \<^verbatim>\<open>df['FantasyPoints']\<close>, then the ranking, the Position column,
  the grouping by \<^verbatim>\<open>Position\<close> (whose statistics and plot are not modelled, only the
  selection of the column) and the mean per year. \<open>dataset\<close> is \<open>df\<close> as the notebook
  leaves it.
\<close>

record analysis =
  ranking :: "(cell \<times> real option) list"
  yearly_avg :: "(cell \<times> real option) list"
  dataset :: frame

definition analyzer :: "bool \<Rightarrow> frame \<Rightarrow> error + analysis" where
  "analyzer numeric_only df =
     bind_err (describe df) (\<lambda>summary.
     bind_err (corr numeric_only df) (\<lambda>matrix.
     bind_err (getitem df ''FantasyPoints'') (\<lambda>points.
     bind_err (top_players df) (\<lambda>ranked.
     bind_err (add_position df) (\<lambda>df.
     bind_err (getitem df ''Position'') (\<lambda>positions.
     bind_err (groupby_mean df ''Year'' ''FantasyPoints'') (\<lambda>yearly.
     Inr \<lparr>ranking = ranked, yearly_avg = yearly, dataset = df\<rparr>)))))))"

section \<open>Example data\<close>

text \<open>
  A dataset of 25 players named \<^verbatim>\<open>A QB\<close> to \<^verbatim>\<open>Y QB\<close> with the points 0 to 24, two
  of them with a second row; a normalized dataset of two rows; and one whose player
  identifiers are \<^verbatim>\<open>1_0\<close> and \<^verbatim>\<open>2_0\<close>, which \<^verbatim>\<open>read_csv\<close> keeps as strings and
  \<^verbatim>\<open>float\<close> reads as 10 and 20.
\<close>

definition example_roster :: frame where
  "example_roster = \<lparr>columns = [''Player'', ''FantasyPoints''],
     rows = map (\<lambda>n. [Str [char_of (65 + n), CHR '' '', CHR ''Q'', CHR ''B''], Num (real n)]) [0..<25]
            @ [[Str ''A QB'', Num 100], [Str ''Y QB'', Num 1]]\<rparr>"

definition example_dataset :: frame where
  "example_dataset = \<lparr>columns = [''Player'', ''FantasyPoints'', ''Year''],
             rows = [[Str ''Patrick Mahomes QB'', Num 1, Num 1],
                     [Str ''Travis Kelce TE'', Num (- 1), Num (- 1)]]\<rparr>"

definition example_numbered :: frame where
  "example_numbered = \<lparr>columns = [''Player'', ''FantasyPoints'', ''Year''],
             rows = [[Str ''1_0'', Num 1, Num 1],
                     [Str ''2_0'', Num (- 1), Num (- 1)]]\<rparr>"

text \<open>
  The files of a season: one passer who also runs and catches, one runner, one receiver.
  \<open>example_raw\<close> has these files for the seasons 2019 to 2023.
\<close>

definition example_passing :: frame where
  "example_passing = \<lparr>columns = [''Player'', ''Tm'', ''Yds'', ''TD'', ''Int''],
      rows = [[Str ''Patrick Mahomes'', Str ''KAN'', Num 300, Num 2, Num 1]]\<rparr>"

definition example_rushing :: frame where
  "example_rushing = \<lparr>columns = [''Player'', ''Tm'', ''Yds'', ''TD''],
      rows = [[Str ''Patrick Mahomes'', Str ''KAN'', Num 20, Num 0],
              [Str ''Isiah Pacheco'', Str ''KAN'', Num 80, Num 1]]\<rparr>"

definition example_receiving :: frame where
  "example_receiving = \<lparr>columns = [''Player'', ''Tm'', ''Rec'', ''Yds'', ''TD''],
      rows = [[Str ''Patrick Mahomes'', Str ''KAN'', Num 5, Num 50, Num 1],
              [Str ''Travis Kelce'', Str ''KAN'', Num 7, Num 90, Num 1]]\<rparr>"

definition example_raw :: "int \<Rightarrow> (frame \<times> frame \<times> frame) option" where
  "example_raw year =
     (if 2019 \<le> year \<and> year \<le> 2023
      then Some (example_passing, example_rushing, example_receiving) else None)"



text \<open>
  What the merge and the scoring make of the example season, and three tables in which
  rushing and receiving share the label \<^verbatim>\<open>Fmb\<close>.
\<close>

definition example_merged :: frame where
  "example_merged =
     \<lparr>columns = [''Player'', ''Tm'', ''Yds_pass'', ''TD_pass'', ''Int'', ''Yds_rush'', ''TD_rush'',
                 ''Rec'', ''Yds'', ''TD''],
      rows = [[Str ''Patrick Mahomes'', Str ''KAN'', Num 300, Num 2, Num 1, Num 20, Num 0,
                 Num 5, Num 50, Num 1],
              [Str ''Isiah Pacheco'', Str ''KAN'', Num 0, Num 0, Num 0, Num 80, Num 1,
                 Num 0, Num 0, Num 0],
              [Str ''Travis Kelce'', Str ''KAN'', Num 0, Num 0, Num 0, Num 0, Num 0,
                 Num 7, Num 90, Num 1]]\<rparr>"

definition example_players :: frame where
  "example_players =
     \<lparr>columns = [''Player'', ''Tm'', ''Yds_pass'', ''TD_pass'', ''Int'', ''Yds_rush'', ''TD_rush'',
                 ''Rec'', ''Yds'', ''TD'', ''FantasyPoints''],
      rows = [[Str ''Patrick Mahomes'', Str ''KAN'', Num 300, Num 2, Num 1, Num 20, Num 0,
                 Num 5, Num 50, Num 1, Num 36],
              [Str ''Isiah Pacheco'', Str ''KAN'', Num 0, Num 0, Num 0, Num 80, Num 1,
                 Num 0, Num 0, Num 0, Num 14],
              [Str ''Travis Kelce'', Str ''KAN'', Num 0, Num 0, Num 0, Num 0, Num 0,
                 Num 7, Num 90, Num 1, Num 22]]\<rparr>"

text \<open>
  A season with one player, who ran for three yards and did nothing else, and the scored
  frame: three times the float \<^verbatim>\<open>0.1\<close> is the float \<^verbatim>\<open>0.30000000000000004\<close>.
\<close>

definition three_yards_passing :: frame where
  "three_yards_passing = \<lparr>columns = [''Player'', ''Tm'', ''Yds'', ''TD'', ''Int''],
      rows = [[Str ''Taysom Hill'', Str ''NOR'', Num 0, Num 0, Num 0]]\<rparr>"

definition three_yards_rushing :: frame where
  "three_yards_rushing = \<lparr>columns = [''Player'', ''Tm'', ''Yds'', ''TD''],
      rows = [[Str ''Taysom Hill'', Str ''NOR'', Num 3, Num 0]]\<rparr>"

definition three_yards_receiving :: frame where
  "three_yards_receiving = \<lparr>columns = [''Player'', ''Tm'', ''Rec'', ''Yds'', ''TD''],
      rows = [[Str ''Taysom Hill'', Str ''NOR'', Num 0, Num 0, Num 0]]\<rparr>"

definition three_yards_players :: frame where
  "three_yards_players =
     \<lparr>columns = [''Player'', ''Tm'', ''Yds_pass'', ''TD_pass'', ''Int'', ''Yds_rush'', ''TD_rush'',
                 ''Rec'', ''Yds'', ''TD'', ''FantasyPoints''],
      rows = [[Str ''Taysom Hill'', Str ''NOR'', Num 0, Num 0, Num 0, Num 3, Num 0,
                 Num 0, Num 0, Num 0, Num (1351079888211149 / 4503599627370496)]]\<rparr>"

definition fumbles_passing :: frame where
  "fumbles_passing = \<lparr>columns = [''Player'', ''Tm'', ''Yds''],
       rows = [[Str ''Josh Allen'', Str ''BUF'', Num 4000]]\<rparr>"

definition fumbles_rushing :: frame where
  "fumbles_rushing = \<lparr>columns = [''Player'', ''Tm'', ''Yds'', ''Fmb''],
       rows = [[Str ''Josh Allen'', Str ''BUF'', Num 500, Num 1]]\<rparr>"

definition fumbles_receiving :: frame where
  "fumbles_receiving = \<lparr>columns = [''Player'', ''Tm'', ''Rec'', ''Fmb''],
       rows = [[Str ''Josh Allen'', Str ''BUF'', Num 1, Num 2]]\<rparr>"

section \<open>Basic facts\<close>

lemma bind_err_Inr: "bind_err m f = Inr y \<longleftrightarrow> (\<exists>x. m = Inr x \<and> f x = Inr y)"
  by (cases m) (simp_all add: bind_err_def)

lemma sequence_map_Inr: "sequence (map Inr xs) = Inr xs"
  by (induction xs) simp_all

lemma sequence_InrD: "sequence ms = Inr xs \<Longrightarrow> ms = map Inr xs"
  by (induction ms arbitrary: xs) (auto split: sum.splits)

lemma sequence_Inr: "sequence ms = Inr xs \<longleftrightarrow> ms = map Inr xs"
  using sequence_InrD sequence_map_Inr by blast

section \<open>Collector: header rows and empty rows\<close>

text \<open>
  C8. Whenever \<^verbatim>\<open>scrape_table\<close> returns, the table it returns has the labels of the
  parsed table and a selection of its rows, no row of it has the string \<^verbatim>\<open>'Player'\<close>
  in the \<^verbatim>\<open>Player\<close> column, and every row of it has a cell that is not missing.
\<close>

theorem scrape_table_filters:
  assumes "scrape_table table = Inr df"
  shows "columns df = columns table \<and> set (rows df) \<subseteq> set (rows table) \<and>
         (\<exists>i. get_loc (columns df) ''Player'' = Inr i \<and>
              (\<forall>r\<in>set (rows df). r ! i \<noteq> Str ''Player'' \<and> (\<exists>c\<in>set r. c \<noteq> NaN)))"
proof -
  from assms obtain i where i: "get_loc (columns table) ''Player'' = Inr i"
    and df: "df = table\<lparr>rows := filter (\<lambda>r. \<not> list_all (\<lambda>c. c = NaN) r)
                (filter (\<lambda>r. r ! i \<noteq> Str ''Player'') (rows table))\<rparr>"
    by (auto simp: scrape_table_def bind_err_Inr Let_def)
  show ?thesis using i by (auto simp: df list_all_iff)
qed

text \<open>
  A parsed table with a repeated header row and an empty row: only the player's row is
  left.
\<close>

theorem scrape_table_filters_witness:
  "scrape_table \<lparr>columns = [''Player'', ''Tm'', ''Yds''],
       rows = [[Str ''Mahomes'', Str ''KAN'', Num 300],
               [Str ''Player'', Str ''Tm'', Str ''Yds''],
               [NaN, NaN, NaN]]\<rparr>
    = Inr \<lparr>columns = [''Player'', ''Tm'', ''Yds''],
           rows = [[Str ''Mahomes'', Str ''KAN'', Num 300]]\<rparr>
   \<and> (\<exists>i. get_loc [''Player'', ''Tm'', ''Yds''] ''Player'' = Inr i \<and>
        (\<forall>r\<in>set [[Str ''Mahomes'', Str ''KAN'', Num 300]].
           r ! i \<noteq> Str ''Player'' \<and> (\<exists>c\<in>set r. c \<noteq> NaN)))"
proof -
  have run: "scrape_table \<lparr>columns = [''Player'', ''Tm'', ''Yds''],
       rows = [[Str ''Mahomes'', Str ''KAN'', Num 300],
               [Str ''Player'', Str ''Tm'', Str ''Yds''],
               [NaN, NaN, NaN]]\<rparr>
    = Inr \<lparr>columns = [''Player'', ''Tm'', ''Yds''],
           rows = [[Str ''Mahomes'', Str ''KAN'', Num 300]]\<rparr>"
    by (simp add: scrape_table_def bind_err_def get_loc_def Let_def)
  from scrape_table_filters [OF run] show ?thesis using run by simp
qed

section \<open>Analyzer: the ranking\<close>

lemma set_unique: "set (unique xs) = set xs"
  by (simp add: unique_def)

lemma distinct_unique: "distinct (unique xs)"
  by (simp add: unique_def)

lemma length_unique: "length (unique xs) = card (set xs)"
  by (simp add: unique_def length_remdups_card_conv)

lemma ge_last_total: "ge_last a b \<or> ge_last b a"
  by (cases a; cases b) auto

lemma ge_last_trans: "ge_last a b \<Longrightarrow> ge_last b c \<Longrightarrow> ge_last a c"
  by (cases a; cases b; cases c) auto

lemma set_insert_desc: "set (insert_desc a xs) = insert a (set xs)"
  by (induction xs) auto

lemma length_insert_desc: "length (insert_desc a xs) = Suc (length xs)"
  by (induction xs) auto

lemma sorted_insert_desc:
  "sorted_wrt (\<lambda>a b. ge_last (snd a) (snd b)) xs \<Longrightarrow>
   sorted_wrt (\<lambda>a b. ge_last (snd a) (snd b)) (insert_desc a xs)"
proof (induction xs)
  case Nil
  then show ?case by simp
next
  case (Cons b bs)
  show ?case
  proof (cases "ge_last (snd a) (snd b)")
    case True
    then have "\<forall>x\<in>set bs. ge_last (snd a) (snd x)"
      using Cons.prems ge_last_trans by auto
    with True Cons.prems show ?thesis by simp
  next
    case False
    then have "ge_last (snd b) (snd a)" using ge_last_total by blast
    with False Cons show ?thesis by (auto simp: set_insert_desc)
  qed
qed

lemma distinct_insert_desc:
  "distinct (map fst (insert_desc a xs)) \<longleftrightarrow> fst a \<notin> fst ` set xs \<and> distinct (map fst xs)"
  by (induction xs) (auto simp: set_insert_desc)

lemma set_sort_values_desc: "set (sort_values_desc xs) = set xs"
  by (induction xs) (simp_all add: sort_values_desc_def set_insert_desc)

lemma length_sort_values_desc: "length (sort_values_desc xs) = length xs"
  by (induction xs) (simp_all add: sort_values_desc_def length_insert_desc)

lemma sorted_sort_values_desc:
  "sorted_wrt (\<lambda>a b. ge_last (snd a) (snd b)) (sort_values_desc xs)"
  by (induction xs) (simp_all add: sort_values_desc_def sorted_insert_desc)

lemma distinct_sort_values_desc:
  "distinct (map fst xs) \<Longrightarrow> distinct (map fst (sort_values_desc xs))"
proof (induction xs)
  case Nil
  then show ?case by (simp add: sort_values_desc_def)
next
  case (Cons a xs)
  then have "distinct (map fst (sort_values_desc xs))" by simp
  moreover have "fst a \<notin> fst ` set (sort_values_desc xs)"
    using Cons.prems by (simp add: set_sort_values_desc)
  ultimately show ?case
    using distinct_insert_desc [of a "sort_values_desc xs"]
    by (simp add: sort_values_desc_def)
qed

text \<open>
  C7. When the \<^verbatim>\<open>Player\<close> column holds at least 25 distinct identifiers (missing
  cells are no identifiers) and \<^verbatim>\<open>FantasyPoints\<close> is a numeric column, the ranking
  of line 152 is computed; it has exactly 20 entries, no player twice, the means in
  descending order (a missing mean comes last), and every entry is a player of the dataset
  with the mean of that player's \<^verbatim>\<open>FantasyPoints\<close>.
\<close>

theorem top_players_ranking:
  assumes players: "getitem df ''Player'' = Inr players"
    and points: "getitem df ''FantasyPoints'' = Inr points"
    and numeric: "is_numeric points"
    and many: "25 \<le> card (set players - {NaN})"
  shows "\<exists>ranked. top_players df = Inr ranked \<and>
           length ranked = 20 \<and> distinct (map fst ranked) \<and>
           sorted_wrt (\<lambda>a b. ge_last (snd a) (snd b)) ranked \<and>
           (\<forall>(k, m)\<in>set ranked. k \<in> set players \<and> k \<noteq> NaN \<and>
                 m = nanmean (group_values players points k))"
proof -
  let ?keys = "unique (filter (\<lambda>k. k \<noteq> NaN) players)"
  let ?means = "map (\<lambda>k. (k, nanmean (group_values players points k))) ?keys"
  let ?ranked = "take 20 (sort_values_desc ?means)"
  have run: "top_players df = Inr ?ranked"
    using players points numeric by (simp add: top_players_def groupby_mean_def bind_err_def)
  have "set (filter (\<lambda>k. k \<noteq> NaN) players) = set players - {NaN}" by auto
  then have len: "length ?means = card (set players - {NaN})"
    by (simp add: length_unique)
  have "length ?ranked = 20"
    using many len by (simp add: length_sort_values_desc)
  moreover have "map fst ?means = ?keys" by (simp add: comp_def)
  then have "distinct (map fst (sort_values_desc ?means))"
    using distinct_sort_values_desc [of ?means] by (simp add: distinct_unique)
  then have "distinct (map fst ?ranked)"
    by (simp add: take_map [symmetric] distinct_take)
  moreover have "sorted_wrt (\<lambda>a b. ge_last (snd a) (snd b)) ?ranked"
    by (rule sorted_wrt_take) (rule sorted_sort_values_desc)
  moreover have "set ?ranked \<subseteq> set ?means"
    using set_take_subset [of 20 "sort_values_desc ?means"]
    by (simp add: set_sort_values_desc)
  then have "\<forall>(k, m)\<in>set ?ranked. k \<in> set players \<and> k \<noteq> NaN \<and>
                 m = nanmean (group_values players points k)"
    by (auto simp: set_unique)
  ultimately show ?thesis using run by blast
qed

text \<open>
  The ranking is computed only on such datasets: both columns are there and
  \<^verbatim>\<open>FantasyPoints\<close> is numeric.
\<close>

lemma top_players_returns:
  assumes "top_players df = Inr ranked"
  shows "\<exists>players points. getitem df ''Player'' = Inr players \<and>
           getitem df ''FantasyPoints'' = Inr points \<and> is_numeric points"
proof -
  from assms obtain means where "groupby_mean df ''Player'' ''FantasyPoints'' = Inr means"
    by (auto simp: top_players_def bind_err_Inr)
  then obtain players points where p: "getitem df ''Player'' = Inr players"
    "getitem df ''FantasyPoints'' = Inr points"
    and rest: "(if \<not> is_numeric points then Inl TypeError
         else Inr (map (\<lambda>k. (k, nanmean (group_values players points k)))
                 (unique (filter (\<lambda>k. k \<noteq> NaN) players)))) = Inr means"
    unfolding groupby_mean_def bind_err_Inr by blast
  from rest have "is_numeric points" by (cases "is_numeric points") simp_all
  with p show ?thesis by blast
qed

text \<open>
  On the example roster the ranking is computed, player \<^verbatim>\<open>A QB\<close> leads with the mean
  of 0 and 100.
\<close>

theorem top_players_ranking_witness:
  "\<exists>ranked players points.
     getitem example_roster ''Player'' = Inr players \<and>
     getitem example_roster ''FantasyPoints'' = Inr points \<and>
     is_numeric points \<and>
     25 \<le> card (set players - {NaN}) \<and>
     top_players example_roster = Inr ranked \<and>
     length ranked = 20 \<and> distinct (map fst ranked) \<and>
     sorted_wrt (\<lambda>a b. ge_last (snd a) (snd b)) ranked \<and>
     take 3 ranked = [(Str ''A QB'', Some 50), (Str ''X QB'', Some 23), (Str ''W QB'', Some 22)]"
proof -
  let ?ranked = "[(Str ''A QB'', Some 50), (Str ''X QB'', Some 23),
      (Str ''W QB'', Some 22), (Str ''V QB'', Some 21),
      (Str ''U QB'', Some 20), (Str ''T QB'', Some 19),
      (Str ''S QB'', Some 18), (Str ''R QB'', Some 17),
      (Str ''Q QB'', Some 16), (Str ''P QB'', Some 15),
      (Str ''O QB'', Some 14), (Str ''N QB'', Some 13), (Str ''Y QB'', Some (25 / 2)),
      (Str ''M QB'', Some 12), (Str ''L QB'', Some 11),
      (Str ''K QB'', Some 10), (Str ''J QB'', Some 9),
      (Str ''I QB'', Some 8), (Str ''H QB'', Some 7),
      (Str ''G QB'', Some 6)] :: (cell \<times> real option) list"
  let ?players = "map (\<lambda>n. Str [char_of (65 + n), CHR '' '', CHR ''Q'', CHR ''B'']) [0..<25]
                  @ [Str ''A QB'', Str ''Y QB'']"
  let ?points = "map (\<lambda>n. Num (real n)) [0..<25] @ [Num 100, Num 1]"
  have run: "top_players example_roster = Inr ?ranked"
    by code_simp
  have players: "getitem example_roster ''Player'' = Inr ?players"
    by (simp add: example_roster_def getitem_def get_loc_def bind_err_def column_at_def comp_def)
  have points: "getitem example_roster ''FantasyPoints'' = Inr ?points"
    by (simp add: example_roster_def getitem_def get_loc_def bind_err_def column_at_def comp_def)
  have numeric: "is_numeric ?points"
    by (simp add: is_numeric_def list_all_iff)
  have many: "25 \<le> card (set ?players - {NaN})"
    by code_simp
  from top_players_ranking [OF players points numeric many]
  obtain r where r: "top_players example_roster = Inr r"
    and props: "length r = 20" "distinct (map fst r)"
      "sorted_wrt (\<lambda>a b. ge_last (snd a) (snd b)) r"
    by blast
  have "Inr r = (Inr ?ranked :: error + (cell \<times> real option) list)"
    by (rule trans [OF r [symmetric] run])
  then have eq: "r = ?ranked" by (rule Inr_inject)
  have "take 3 r = [(Str ''A QB'', Some 50), (Str ''X QB'', Some 23), (Str ''W QB'', Some 22)]"
    unfolding eq by simp
  with r props players points numeric many show ?thesis
    by blast
qed

section \<open>Analyzer: the Position column\<close>

lemma split_from_spaces: "list_all is_space s \<Longrightarrow> split_from [] s = []"
  by (induction s) simp_all

lemma sequence_IndexError:
  assumes "\<forall>m\<in>set ms. m = Inl IndexError \<or> (\<exists>x. m = Inr x)" "Inl IndexError \<in> set ms"
  shows "sequence ms = Inl IndexError"
  using assms
proof (induction ms)
  case Nil
  then show ?case by simp
next
  case (Cons m ms)
  show ?case
  proof (cases m)
    case (Inl e)
    with Cons.prems show ?thesis by auto
  next
    case (Inr x)
    with Cons.prems have "Inl IndexError \<in> set ms" by auto
    with Cons have "sequence ms = Inl IndexError" by auto
    with Inr show ?thesis by simp
  qed
qed

lemma position_of_Str: "position_of (Str t) = Inl IndexError \<or> (\<exists>x. position_of (Str t) = Inr x)"
  by (simp add: position_of_def)

text \<open>
  C10. For a player identifier that is empty or consists of whitespace only,
  \<^verbatim>\<open>x.split()\<close> is the empty list and \<^verbatim>\<open>x.split()[-1]\<close> raises IndexError; line 163
  then raises IndexError on a dataset with such a row whose \<^verbatim>\<open>Player\<close> cells are all
  strings.
\<close>

theorem position_of_whitespace:
  assumes "list_all is_space s"
    and "getitem df ''Player'' = Inr players"
    and "Str s \<in> set players"
    and "\<forall>c\<in>set players. \<exists>t. c = Str t"
  shows "str_split s = [] \<and> position_of (Str s) = Inl IndexError \<and> add_position df = Inl IndexError"
proof -
  have s: "str_split s = []" using assms(1) by (simp add: str_split_def split_from_spaces)
  then have p: "position_of (Str s) = Inl IndexError" by (simp add: position_of_def)
  have "\<forall>m\<in>set (map position_of players). m = Inl IndexError \<or> (\<exists>x. m = Inr x)"
    using assms(4) position_of_Str by (metis (no_types, lifting) imageE list.set_map)
  moreover have "Inl IndexError \<in> set (map position_of players)"
    using assms(3) p by force
  ultimately have "sequence (map position_of players) = Inl IndexError"
    by (rule sequence_IndexError)
  then show ?thesis using s p assms(2) by (simp add: add_position_def bind_err_def)
qed

text \<open>The spec's example: the last token of \<^verbatim>\<open>Patrick Mahomes QB\<close> is \<^verbatim>\<open>QB\<close>.\<close>

lemma position_of_example: "position_of (Str ''Patrick Mahomes QB'') = Inr (Str ''QB'')"
  by (simp add: position_of_def str_split_def is_space_def)

text \<open>A dataset whose second player identifier is two blanks.\<close>

theorem position_of_whitespace_witness:
  "list_all is_space ''  '' \<and>
   getitem \<lparr>columns = [''Player'', ''FantasyPoints''],
            rows = [[Str ''Patrick Mahomes QB'', Num 1], [Str ''  '', Num 0]]\<rparr> ''Player''
     = Inr [Str ''Patrick Mahomes QB'', Str ''  ''] \<and>
   position_of (Str ''  '') = Inl IndexError \<and>
   add_position \<lparr>columns = [''Player'', ''FantasyPoints''],
            rows = [[Str ''Patrick Mahomes QB'', Num 1], [Str ''  '', Num 0]]\<rparr> = Inl IndexError"
proof -
  have a: "list_all is_space ''  ''" by (simp add: is_space_def)
  have b: "getitem \<lparr>columns = [''Player'', ''FantasyPoints''],
            rows = [[Str ''Patrick Mahomes QB'', Num 1], [Str ''  '', Num 0]]\<rparr> ''Player''
     = Inr [Str ''Patrick Mahomes QB'', Str ''  '']"
    by (simp add: getitem_def get_loc_def bind_err_def column_at_def)
  from position_of_whitespace [OF a b] show ?thesis using a b by simp
qed

section \<open>Analyzer: what it does to the dataset\<close>

lemma drop_labels_overwrite:
  "drop_labels [c] cols (map2 (\<lambda>l x. if l = c then v else x) cols r) = drop_labels [c] cols r"
proof (induction cols arbitrary: r)
  case Nil
  then show ?case by (simp add: drop_labels_def)
next
  case (Cons l cols)
  then show ?case by (cases r) (auto simp: drop_labels_def)
qed

lemma drop_labels_append:
  "length r = length cols \<Longrightarrow> drop_labels [c] (cols @ [c]) (r @ [v]) = drop_labels [c] cols r"
  by (simp add: drop_labels_def)

lemma setitem_columns:
  "columns (setitem df c vals) = (if c \<in> set (columns df) then columns df else columns df @ [c])"
  by (simp add: setitem_def)

lemma setitem_length:
  "length vals = length (rows df) \<Longrightarrow> length (rows (setitem df c vals)) = length (rows df)"
  by (simp add: setitem_def)

lemma map_map2:
  "length vs = length rs \<Longrightarrow> (\<And>r v. r \<in> set rs \<Longrightarrow> g (f r v) = h r) \<Longrightarrow>
   map g (map2 f rs vs) = map h rs"
  by (induction vs rs rule: list_induct2) simp_all

lemma setitem_others:
  assumes "rectangular df" "length vals = length (rows df)"
  shows "map (drop_labels [c] (columns (setitem df c vals))) (rows (setitem df c vals))
         = map (drop_labels [c] (columns df)) (rows df)"
proof (cases "c \<in> set (columns df)")
  case True
  have "map (drop_labels [c] (columns df))
          (map2 (\<lambda>r v. map2 (\<lambda>l x. if l = c then v else x) (columns df) r) (rows df) vals)
        = map (drop_labels [c] (columns df)) (rows df)"
    using assms(2) by (rule map_map2) (rule drop_labels_overwrite)
  with True show ?thesis by (simp add: setitem_def)
next
  case False
  have rect: "\<And>r. r \<in> set (rows df) \<Longrightarrow> length r = length (columns df)"
    using assms(1) by (simp add: rectangular_def list_all_iff)
  have "map (drop_labels [c] (columns df @ [c])) (map2 (\<lambda>r v. r @ [v]) (rows df) vals)
        = map (drop_labels [c] (columns df)) (rows df)"
    using assms(2) by (rule map_map2) (simp add: rect drop_labels_append)
  with False show ?thesis by (simp add: setitem_def)
qed

lemma setitem_values:
  assumes "length vals = length (rows df)" "rectangular df"
    and "i < length (rows df)" "j < length (columns (setitem df c vals))"
    and "columns (setitem df c vals) ! j = c"
  shows "rows (setitem df c vals) ! i ! j = vals ! i"
proof -
  have len: "length (rows df ! i) = length (columns df)"
    using assms(2,3) by (simp add: rectangular_def list_all_length)
  show ?thesis
  proof (cases "c \<in> set (columns df)")
    case True
    then have cols: "columns (setitem df c vals) = columns df"
      and rws: "rows (setitem df c vals) =
         map2 (\<lambda>r v. map2 (\<lambda>l x. if l = c then v else x) (columns df) r) (rows df) vals"
      by (simp_all add: setitem_def)
    have j: "j < length (columns df)" "columns df ! j = c"
      using assms(4,5) unfolding cols by simp_all
    have "rows (setitem df c vals) ! i
          = map2 (\<lambda>l x. if l = c then vals ! i else x) (columns df) (rows df ! i)"
      unfolding rws using assms(1,3) by simp
    then show ?thesis using j len by simp
  next
    case False
    then have cols: "columns (setitem df c vals) = columns df @ [c]"
      and rws: "rows (setitem df c vals) = map2 (\<lambda>r v. r @ [v]) (rows df) vals"
      by (simp_all add: setitem_def)
    have "j = length (columns df)"
    proof (rule ccontr)
      assume "j \<noteq> length (columns df)"
      with assms(4) have lt: "j < length (columns df)" unfolding cols by simp
      then have "(columns df @ [c]) ! j = columns df ! j" by (simp add: nth_append)
      with assms(5) have "columns df ! j = c" unfolding cols by simp
      with lt False show False by (metis nth_mem)
    qed
    moreover have "rows (setitem df c vals) ! i = rows df ! i @ [vals ! i]"
      unfolding rws using assms(1,3) by simp
    ultimately show ?thesis using len by (simp add: nth_append)
  qed
qed

text \<open>
  C9, as the code has it. Line 163 assigns a column to the frame that was read. Whenever
  the notebook runs through on a rectangular dataset, under either default of
  \<^verbatim>\<open>numeric_only\<close>, the dataset it leaves has the labels it read, followed by
  \<^verbatim>\<open>Position\<close> unless that label was there; it has as many rows; every column with
  another label is unchanged; and a \<^verbatim>\<open>Position\<close> cell is the last token of the row's
  player identifier.
\<close>

theorem analyzer_adds_position:
  assumes run: "analyzer numeric_only df = Inr a" and rect: "rectangular df"
  shows "columns (dataset a) =
           (if ''Position'' \<in> set (columns df) then columns df else columns df @ [''Position''])
         \<and> length (rows (dataset a)) = length (rows df)
         \<and> map (drop_labels [''Position''] (columns (dataset a))) (rows (dataset a))
             = map (drop_labels [''Position''] (columns df)) (rows df)
         \<and> (\<exists>players. getitem df ''Player'' = Inr players \<and>
              (\<forall>i<length (rows df). \<forall>j<length (columns (dataset a)).
                 columns (dataset a) ! j = ''Position'' \<longrightarrow>
                 position_of (players ! i) = Inr (rows (dataset a) ! i ! j)))"
proof -
  from run obtain players positions where players: "getitem df ''Player'' = Inr players"
    and seq: "sequence (map position_of players) = Inr positions"
    and a: "dataset a = setitem df ''Position'' positions"
    by (auto simp: analyzer_def add_position_def bind_err_Inr)
  from seq have pos: "map position_of players = map Inr positions"
    by (simp add: sequence_Inr)
  from players have "length players = length (rows df)"
    by (auto simp: getitem_def bind_err_Inr column_at_def)
  with pos have len: "length positions = length (rows df)"
    by (metis length_map)
  have "\<forall>i<length (rows df). position_of (players ! i) = Inr (positions ! i)"
    using pos len by (metis length_map nth_map)
  then have "\<forall>i<length (rows df). \<forall>j<length (columns (dataset a)).
                 columns (dataset a) ! j = ''Position'' \<longrightarrow>
                 position_of (players ! i) = Inr (rows (dataset a) ! i ! j)"
    using setitem_values [OF len rect] by (simp add: a)
  then show ?thesis
    using players setitem_others [OF rect len] len
    by (simp add: a setitem_columns setitem_length)
qed

text \<open>
  The runs of the notebook on the example datasets. With identifiers that are names the
  notebook runs through where \<^verbatim>\<open>corr\<close> leaves the strings out, and stops at line 140
  with ValueError where it converts them; with identifiers that \<^verbatim>\<open>float\<close> can read it runs
  through in both cases.
\<close>

lemma analyzer_example:
  "analyzer True example_dataset
   = Inr \<lparr>ranking = [(Str ''Patrick Mahomes QB'', Some 1), (Str ''Travis Kelce TE'', Some (- 1))],
          yearly_avg = [(Num 1, Some 1), (Num (- 1), Some (- 1))],
          dataset = \<lparr>columns = [''Player'', ''FantasyPoints'', ''Year'', ''Position''],
             rows = [[Str ''Patrick Mahomes QB'', Num 1, Num 1, Str ''QB''],
                     [Str ''Travis Kelce TE'', Num (- 1), Num (- 1), Str ''TE'']]\<rparr>\<rparr>"
  by code_simp

lemma analyzer_names_converted: "analyzer False example_dataset = Inl ValueError"
  by code_simp

lemma analyzer_numbered:
  "analyzer False example_numbered
   = Inr \<lparr>ranking = [(Str ''1_0'', Some 1), (Str ''2_0'', Some (- 1))],
          yearly_avg = [(Num 1, Some 1), (Num (- 1), Some (- 1))],
          dataset = \<lparr>columns = [''Player'', ''FantasyPoints'', ''Year'', ''Position''],
             rows = [[Str ''1_0'', Num 1, Num 1, Str ''1_0''],
                     [Str ''2_0'', Num (- 1), Num (- 1), Str ''2_0'']]\<rparr>\<rparr>"
  by code_simp

lemma analyzer_numbered_left_out:
  "analyzer True example_numbered
   = Inr \<lparr>ranking = [(Str ''1_0'', Some 1), (Str ''2_0'', Some (- 1))],
          yearly_avg = [(Num 1, Some 1), (Num (- 1), Some (- 1))],
          dataset = \<lparr>columns = [''Player'', ''FantasyPoints'', ''Year'', ''Position''],
             rows = [[Str ''1_0'', Num 1, Num 1, Str ''1_0''],
                     [Str ''2_0'', Num (- 1), Num (- 1), Str ''2_0'']]\<rparr>\<rparr>"
  by code_simp

text \<open>
  C9 as stated fails: on the dataset with the identifiers \<^verbatim>\<open>1_0\<close> and \<^verbatim>\<open>2_0\<close> the
  notebook runs through under either default of \<^verbatim>\<open>numeric_only\<close>, and the dataset it
  leaves has a fourth column, so it is not equal to what was read.
\<close>

theorem analyzer_unchanged_counterexample:
  "(\<exists>a. analyzer False example_numbered = Inr a \<and> dataset a \<noteq> example_numbered \<and>
        columns (dataset a) = [''Player'', ''FantasyPoints'', ''Year'', ''Position''] \<and>
        rows (dataset a) = [[Str ''1_0'', Num 1, Num 1, Str ''1_0''],
                            [Str ''2_0'', Num (- 1), Num (- 1), Str ''2_0'']]) \<and>
   (\<exists>a. analyzer True example_numbered = Inr a \<and> dataset a \<noteq> example_numbered \<and>
        columns (dataset a) = [''Player'', ''FantasyPoints'', ''Year'', ''Position''])"
  by (simp add: analyzer_numbered analyzer_numbered_left_out) (simp add: example_numbered_def)

text \<open>The dataset is rectangular and the notebook runs through on it.\<close>

theorem analyzer_adds_position_witness:
  "\<exists>a. analyzer False example_numbered = Inr a \<and> rectangular example_numbered \<and>
       columns (dataset a) = columns example_numbered @ [''Position''] \<and>
       length (rows (dataset a)) = length (rows example_numbered) \<and>
       map (drop_labels [''Position''] (columns (dataset a))) (rows (dataset a))
         = rows example_numbered"
proof -
  have rect: "rectangular example_numbered"
    by (simp add: rectangular_def example_numbered_def)
  have no: "''Position'' \<notin> set (columns example_numbered)"
    by (simp add: example_numbered_def)
  have same: "map (drop_labels [''Position''] (columns example_numbered)) (rows example_numbered)
              = rows example_numbered"
    by (simp add: example_numbered_def drop_labels_def)
  from analyzer_adds_position [OF analyzer_numbered rect] no same rect analyzer_numbered
  show ?thesis by simp
qed

section \<open>Merger: the concatenation of the seasons\<close>

lemma process_years_rows:
  "process_years raw years = Inr dfs \<Longrightarrow>
   (\<forall>y\<in>set years. \<exists>p. load_and_preprocess_data raw y = Inr p) \<and>
   map (\<lambda>df. length (rows df)) dfs
     = map (\<lambda>y. case load_and_preprocess_data raw y of Inr p \<Rightarrow> length (rows p) | Inl e \<Rightarrow> 0) years"
proof (induction years arbitrary: dfs)
  case Nil
  then show ?case by simp
next
  case (Cons y years)
  from Cons.prems obtain p rest where p: "load_and_preprocess_data raw y = Inr p"
    and rest: "process_years raw years = Inr rest"
    and dfs: "dfs = setitem p ''Year'' (replicate (length (rows p)) (Num (of_int y))) # rest"
    by (auto simp: bind_err_Inr)
  from Cons.IH [OF rest] p show ?case
    by (simp add: dfs setitem_length)
qed

lemma length_reindex: "length (reindex cols df) = length (rows df)"
  by (simp add: reindex_def)

lemma pd_concat_cases:
  assumes "pd_concat dfs = Inr df"
  shows "df = \<lparr>columns = columns (hd dfs), rows = concat (map rows dfs)\<rparr> \<or>
         df = \<lparr>columns = unique (concat (map columns dfs)),
               rows = concat (map (reindex (unique (concat (map columns dfs)))) dfs)\<rparr>"
proof -
  let ?same = "\<forall>df\<in>set dfs. columns df = columns (hd dfs)"
  let ?dup = "\<exists>df\<in>set dfs. \<not> distinct (columns df)"
  let ?A = "\<lparr>columns = columns (hd dfs), rows = concat (map rows dfs)\<rparr>"
  let ?B = "\<lparr>columns = unique (concat (map columns dfs)),
               rows = concat (map (reindex (unique (concat (map columns dfs)))) dfs)\<rparr>"
  have eq: "pd_concat dfs =
      (if dfs = [] then Inl ValueError
       else if ?same then Inr ?A
       else if ?dup then Inl InvalidIndexError else Inr ?B)"
    by (simp only: pd_concat_def Let_def)
  show ?thesis
  proof (cases "dfs = []")
    case True
    have "pd_concat dfs = Inl ValueError" unfolding eq by (simp only: if_P [OF True])
    with assms show ?thesis by simp
  next
    case ne: False
    show ?thesis
    proof (cases ?same)
      case True
      have "pd_concat dfs = Inr ?A"
        unfolding eq by (simp only: if_not_P [OF ne] if_P [OF True])
      with assms have "df = ?A" by (simp only: sum.inject)
      then show ?thesis by (rule disjI1)
    next
      case ns: False
      show ?thesis
      proof (cases ?dup)
        case True
        have "pd_concat dfs = Inl InvalidIndexError"
          unfolding eq by (simp only: if_not_P [OF ne] if_not_P [OF ns] if_P [OF True])
        with assms show ?thesis by simp
      next
        case False
        have "pd_concat dfs = Inr ?B"
          unfolding eq by (simp only: if_not_P [OF ne] if_not_P [OF ns] if_not_P [OF False])
        with assms have "df = ?B" by (simp only: sum.inject)
        then show ?thesis by (rule disjI2)
      qed
    qed
  qed
qed

lemma pd_concat_rows:
  assumes "pd_concat dfs = Inr df"
  shows "length (rows df) = sum_list (map (\<lambda>df. length (rows df)) dfs)"
  using pd_concat_cases [OF assms]
  by (auto simp: length_concat comp_def length_reindex)

lemma scale_features_rows: "scale_features df = Inr scaled \<Longrightarrow> length (rows scaled) = length (rows df)"
  by (auto simp: scale_features_def split: if_splits)

text \<open>
  C6. Whenever the loop and \<^verbatim>\<open>pd.concat\<close> of lines 102 to 110 return, every season of
  \<^verbatim>\<open>range(current_year - 4, current_year + 1)\<close> was loaded, and the concatenated
  dataset has as many rows as the seasons' merged records together;
  \<^verbatim>\<open>scale_features\<close> keeps that number of rows.
\<close>

theorem concat_row_count:
  assumes "all_players_df raw current_year = Inr df"
  shows "(\<forall>year\<in>set [current_year - 4 .. current_year].
            \<exists>players. load_and_preprocess_data raw year = Inr players) \<and>
         length (rows df)
           = (\<Sum>year\<leftarrow>[current_year - 4 .. current_year].
                case load_and_preprocess_data raw year of
                  Inr players \<Rightarrow> length (rows players) | Inl e \<Rightarrow> 0) \<and>
         (\<forall>scaled. all_players_scaled raw current_year = Inr scaled \<longrightarrow>
            length (rows scaled) = length (rows df))"
proof -
  from assms obtain dfs where dfs: "process_years raw [current_year - 4 .. current_year] = Inr dfs"
    and df: "pd_concat dfs = Inr df"
    by (auto simp: all_players_df_def bind_err_Inr)
  have "\<forall>scaled. all_players_scaled raw current_year = Inr scaled \<longrightarrow>
            length (rows scaled) = length (rows df)"
    using assms by (simp add: all_players_scaled_def bind_err_def scale_features_rows)
  moreover have "length (rows df) = sum_list (map (\<lambda>df. length (rows df)) dfs)"
    by (rule pd_concat_rows [OF df])
  ultimately show ?thesis
    using process_years_rows [OF dfs] by simp
qed

text \<open>Five seasons of three merged rows each give 15 rows.\<close>

lemma example_scored_run:
  "score_players example_passing example_rushing example_receiving = Inr example_players"
  by code_simp

theorem concat_row_count_witness:
  "\<exists>df. all_players_df example_raw 2023 = Inr df \<and> length (rows df) = 15 \<and>
        (\<Sum>year\<leftarrow>[2023 - 4 .. 2023].
                case load_and_preprocess_data example_raw year of
                  Inr players \<Rightarrow> length (rows players) | Inl e \<Rightarrow> 0) = 15"
proof -
  have years: "[2023 - 4 .. 2023] = [2019, 2020, 2021, 2022, 2023 :: int]"
    by code_simp
  have season:
    "load_and_preprocess_data example_raw 2019 = Inr example_players"
    "load_and_preprocess_data example_raw 2020 = Inr example_players"
    "load_and_preprocess_data example_raw 2021 = Inr example_players"
    "load_and_preprocess_data example_raw 2022 = Inr example_players"
    "load_and_preprocess_data example_raw 2023 = Inr example_players"
    by (simp_all add: load_and_preprocess_data_def example_raw_def example_scored_run)
  have "\<not> isl (all_players_df example_raw 2023)"
    unfolding all_players_df_def years process_years.simps season by code_simp
  then obtain df where run: "all_players_df example_raw 2023 = Inr df"
    by (cases "all_players_df example_raw 2023") auto
  have total: "(\<Sum>year\<leftarrow>[2023 - 4 .. 2023].
                case load_and_preprocess_data example_raw year of
                  Inr players \<Rightarrow> length (rows players) | Inl e \<Rightarrow> 0) = 15"
    unfolding years by (simp add: season example_players_def)
  from concat_row_count [OF run] total run show ?thesis
    by auto
qed

section \<open>Merger: normalization\<close>












section \<open>Merger: the outer joins\<close>

text \<open>
  Facts about \<open>pd_merge\<close>: labels, the shape of the rows, where the key cells are
  and which rows the result has. The key labels do not end in one of the suffixes, so a
  suffixed label is never a key.
\<close>

lemma index_of_less: "c \<in> set cols \<Longrightarrow> index_of cols c < length cols"
  by (induction cols) auto

lemma nth_index_of: "c \<in> set cols \<Longrightarrow> cols ! index_of cols c = c"
  by (induction cols) auto

lemma index_of_append: "c \<in> set xs \<Longrightarrow> index_of (xs @ ys) c = index_of xs c"
  by (induction xs) auto

lemma index_of_map:
  "(\<And>x. x \<in> set cols \<Longrightarrow> (f x = c) = (x = c)) \<Longrightarrow> index_of (map f cols) c = index_of cols c"
  by (induction cols) auto

lemma suffix_last: "x @ s = k \<Longrightarrow> s \<noteq> [] \<Longrightarrow> last k = last s"
  by auto

lemma key_not_suffixed:
  assumes "k \<in> set key_cols"
  shows "x @ ''_pass'' \<noteq> k" "x @ ''_rush'' \<noteq> k" "x @ ''_x'' \<noteq> k" "x @ ''_y'' \<noteq> k"
  using assms suffix_last [of x "''_pass''" k] suffix_last [of x "''_rush''" k]
    suffix_last [of x "''_x''" k] suffix_last [of x "''_y''" k]
  by (auto simp: key_cols_def)

lemma length_drop_labels:
  "length xs = length cols \<Longrightarrow>
   length (drop_labels on cols xs) = length (drop_labels on cols cols)"
proof (induction cols arbitrary: xs)
  case Nil
  then show ?case by (simp add: drop_labels_def)
next
  case (Cons c cols)
  then obtain y ys where "xs = y # ys" "length ys = length cols" by (cases xs) auto
  with Cons.IH [of ys] show ?case by (simp add: drop_labels_def)
qed

lemma set_drop_labels_labels: "set (drop_labels on cols cols) = set cols - set on"
  by (induction cols) (auto simp: drop_labels_def)

lemma pd_merge_Inr:
  assumes "pd_merge left right on suffixes = Inr out"
  shows "set on \<subseteq> set (columns left)" "set on \<subseteq> set (columns right)"
    "columns out = merge_columns left right on suffixes"
    "rows out = merge_rows left right on"
  using assms by (auto simp: pd_merge_def split: if_splits)


lemma pd_merge_keys_once:
  assumes "pd_merge left right on suffixes = Inr out" "k \<in> set on"
  shows "count_list (columns left) k = 1" "count_list (columns right) k = 1"
proof -
  from assms have "k \<in> set (columns left)" "k \<in> set (columns right)"
    "\<not> 1 < count_list (columns left) k" "\<not> 1 < count_list (columns right) k"
    by (auto simp: pd_merge_def split: if_splits)
  moreover have "count_list (columns left) k \<noteq> 0" "count_list (columns right) k \<noteq> 0"
    using calculation(1,2) by (simp_all add: count_list_0_iff)
  ultimately show "count_list (columns left) k = 1" "count_list (columns right) k = 1"
    by linarith+
qed

lemma in_overlap:
  "c \<in> set (overlap left right on) \<longleftrightarrow>
   c \<in> set (columns left) \<and> c \<in> set (columns right) \<and> c \<notin> set on"
  by (auto simp: overlap_def set_drop_labels_labels)

lemma suffixed_in_merge_columns:
  assumes "c \<in> set (columns left)" "c \<in> set (columns right)" "c \<notin> set on"
  shows "c @ fst suffixes \<in> set (merge_columns left right on suffixes)"
    and "c @ snd suffixes \<in> set (merge_columns left right on suffixes)"
proof -
  have ov: "c \<in> set (overlap left right on)" using assms by (simp add: in_overlap)
  then have "renamer (overlap left right on) (fst suffixes) c = c @ fst suffixes"
    "renamer (overlap left right on) (snd suffixes) c = c @ snd suffixes"
    by (simp_all add: renamer_def)
  moreover have "c \<in> set (drop_labels on (columns right) (columns right))"
    using assms by (simp add: set_drop_labels_labels)
  ultimately show "c @ fst suffixes \<in> set (merge_columns left right on suffixes)"
    and "c @ snd suffixes \<in> set (merge_columns left right on suffixes)"
    using assms(1) by (force simp: merge_columns_def)+
qed

lemma length_merge_columns:
  "length (merge_columns left right on suffixes)
   = length (columns left) + length (drop_labels on (columns right) (columns right))"
  by (simp add: merge_columns_def)

lemma length_filter_two:
  assumes "a \<noteq> b"
  shows "length (filter (\<lambda>c. c \<noteq> a \<and> c \<noteq> b) cols) + count_list cols a + count_list cols b
         = length cols"
  using assms by (induction cols) auto

lemma length_drop_key_cols:
  assumes "count_list cols ''Player'' = 1" "count_list cols ''Tm'' = 1"
  shows "length (drop_labels key_cols cols cols) + 2 = length cols"
proof -
  have "drop_labels key_cols cols cols = filter (\<lambda>c. c \<noteq> ''Player'' \<and> c \<noteq> ''Tm'') cols"
    by (induction cols) (auto simp: drop_labels_def key_cols_def)
  with length_filter_two [of "''Player''" "''Tm''" cols] assms show ?thesis by simp
qed

lemma matched_empty:
  "matched left right on l = [] \<longleftrightarrow>
   (\<forall>r\<in>set (rows right). key_of on (columns right) r \<noteq> key_of on (columns left) l)"
  by (auto simp: matched_def filter_empty_conv)

lemma merge_rows_cases:
  assumes "row \<in> set (merge_rows left right on)"
  shows "(\<exists>l\<in>set (rows left). \<exists>r\<in>set (rows right).
            key_of on (columns right) r = key_of on (columns left) l \<and>
            row = l @ drop_labels on (columns right) r)
       \<or> (\<exists>l\<in>set (rows left).
            (\<forall>r\<in>set (rows right). key_of on (columns right) r \<noteq> key_of on (columns left) l) \<and>
            row = l @ replicate (length (drop_labels on (columns right) (columns right))) NaN)
       \<or> (\<exists>r\<in>set (rows right).
            (\<forall>l\<in>set (rows left). key_of on (columns left) l \<noteq> key_of on (columns right) r) \<and>
            row = from_right left right on r)"
proof -
  from assms consider l where "l \<in> set (rows left)" "row \<in> set (from_left left right on l)"
    | r where "r \<in> set (unmatched left right on)" "row = from_right left right on r"
    by (auto simp: merge_rows_def)
  then show ?thesis
  proof cases
    case 1
    show ?thesis
    proof (cases "matched left right on l = []")
      case True
      with 1 have "row = l @ replicate (length (drop_labels on (columns right) (columns right))) NaN"
        by (simp add: from_left_def)
      with True 1(1) show ?thesis by (auto simp: matched_empty)
    next
      case False
      with 1 obtain r where "r \<in> set (matched left right on l)"
        "row = l @ drop_labels on (columns right) r"
        by (auto simp: from_left_def)
      with 1(1) show ?thesis by (auto simp: matched_def)
    qed
  next
    case 2
    then show ?thesis by (auto simp: unmatched_def)
  qed
qed

lemma merge_rows_matched:
  assumes "l \<in> set (rows left)" "r \<in> set (rows right)"
    "key_of on (columns right) r = key_of on (columns left) l"
  shows "l @ drop_labels on (columns right) r \<in> set (merge_rows left right on)"
proof -
  from assms(2,3) have m: "r \<in> set (matched left right on l)" by (simp add: matched_def)
  then have "matched left right on l \<noteq> []" by auto
  with m have "l @ drop_labels on (columns right) r \<in> set (from_left left right on l)"
    by (simp add: from_left_def)
  with assms(1) show ?thesis by (auto simp: merge_rows_def)
qed

lemma merge_rows_left_only:
  assumes "l \<in> set (rows left)"
    "\<forall>r\<in>set (rows right). key_of on (columns right) r \<noteq> key_of on (columns left) l"
  shows "l @ replicate (length (drop_labels on (columns right) (columns right))) NaN
         \<in> set (merge_rows left right on)"
proof -
  from assms(2) have "matched left right on l = []" by (simp add: matched_empty)
  then have "l @ replicate (length (drop_labels on (columns right) (columns right))) NaN
             \<in> set (from_left left right on l)"
    by (simp add: from_left_def)
  with assms(1) show ?thesis by (auto simp: merge_rows_def)
qed

lemma merge_rows_right_only:
  assumes "r \<in> set (rows right)"
    "\<forall>l\<in>set (rows left). key_of on (columns left) l \<noteq> key_of on (columns right) r"
  shows "from_right left right on r \<in> set (merge_rows left right on)"
  using assms by (simp add: merge_rows_def unmatched_def)


lemma rectangularD: "rectangular df \<Longrightarrow> r \<in> set (rows df) \<Longrightarrow> length r = length (columns df)"
  by (simp add: rectangular_def list_all_iff)

lemma rectangularI: "(\<And>r. r \<in> set (rows df) \<Longrightarrow> length r = length (columns df)) \<Longrightarrow> rectangular df"
  by (simp add: rectangular_def list_all_iff)

lemma length_from_right:
  "length r = length (columns right) \<Longrightarrow>
   length (from_right left right on r)
   = length (columns left) + length (drop_labels on (columns right) (columns right))"
  using length_drop_labels [of r "columns right" on] by (simp add: from_right_def)

lemma length_merge_row:
  assumes "rectangular left" "rectangular right" "row \<in> set (merge_rows left right on)"
  shows "length row = length (columns left) + length (drop_labels on (columns right) (columns right))"
proof -
  have len: "length (drop_labels on (columns right) r)
             = length (drop_labels on (columns right) (columns right))"
    if "r \<in> set (rows right)" for r
    using that assms(2) by (intro length_drop_labels) (rule rectangularD)
  from merge_rows_cases [OF assms(3)] show ?thesis
  proof (elim disjE bexE conjE)
    fix l r assume "l \<in> set (rows left)" "r \<in> set (rows right)"
      "row = l @ drop_labels on (columns right) r"
    then show ?thesis using len [of r] rectangularD [OF assms(1)] by simp
  next
    fix l assume "l \<in> set (rows left)"
      "row = l @ replicate (length (drop_labels on (columns right) (columns right))) NaN"
    then show ?thesis using rectangularD [OF assms(1)] by simp
  next
    fix r assume "r \<in> set (rows right)" "row = from_right left right on r"
    then show ?thesis using length_from_right rectangularD [OF assms(2)] by simp
  qed
qed

lemma pd_merge_rectangular:
  assumes "pd_merge left right on suffixes = Inr out" "rectangular left" "rectangular right"
  shows "rectangular out"
proof (rule rectangularI)
  fix r assume "r \<in> set (rows out)"
  then have "r \<in> set (merge_rows left right on)" using pd_merge_Inr(4) [OF assms(1)] by simp
  from length_merge_row [OF assms(2,3) this] show "length r = length (columns out)"
    by (simp add: pd_merge_Inr(3) [OF assms(1)] length_merge_columns)
qed

lemma key_index_merge:
  assumes "k \<in> set on" "set on \<subseteq> set (columns left)" "\<And>x. x @ fst suffixes \<noteq> k"
  shows "index_of (merge_columns left right on suffixes) k = index_of (columns left) k"
proof -
  let ?ren = "renamer (overlap left right on) (fst suffixes)"
  have nk: "k \<notin> set (overlap left right on)" using assms(1) by (simp add: in_overlap)
  have iff: "(?ren x = k) = (x = k)" for x
    using nk assms(3) [of x] by (auto simp: renamer_def)
  have "k \<in> set (columns left)" using assms(1,2) by auto
  then have "k \<in> set (map ?ren (columns left))" using iff by force
  then have "index_of (merge_columns left right on suffixes) k = index_of (map ?ren (columns left)) k"
    by (simp add: merge_columns_def index_of_append)
  also have "\<dots> = index_of (columns left) k" by (rule index_of_map) (rule iff)
  finally show ?thesis .
qed

lemma key_of_append:
  assumes "set on \<subseteq> set cols" "length a = length cols"
  shows "key_of on cols (a @ b) = key_of on cols a"
  using assms by (auto simp: key_of_def nth_append index_of_less)

lemma key_of_merge:
  assumes "set on \<subseteq> set (columns left)" "\<And>k x. k \<in> set on \<Longrightarrow> x @ fst suffixes \<noteq> k"
    "length a = length (columns left)"
  shows "key_of on (merge_columns left right on suffixes) (a @ b) = key_of on (columns left) a"
proof -
  have "key_of on (merge_columns left right on suffixes) (a @ b) = key_of on (columns left) (a @ b)"
    using assms(1,2) by (simp add: key_of_def key_index_merge)
  then show ?thesis using assms(1,3) by (simp add: key_of_append)
qed

lemma key_of_right_keys:
  assumes "set on \<subseteq> set cols"
  shows "key_of on cols (map (\<lambda>c. if c \<in> set on then r ! index_of cols' c else NaN) cols)
         = key_of on cols' r"
  using assms by (auto simp: key_of_def index_of_less nth_index_of)

lemma drop_labels_map_labels:
  "drop_labels on cols (map f cols) = map f (filter (\<lambda>c. c \<notin> set on) cols)"
  by (induction cols) (simp_all add: drop_labels_def)

lemma nonkey_right_keys:
  "set (drop_labels on cols (map (\<lambda>c. if c \<in> set on then r ! index_of cols' c else NaN) cols))
   \<subseteq> {NaN}"
  by (auto simp: drop_labels_map_labels)

lemma key_of_from_right:
  assumes "set on \<subseteq> set (columns left)" "\<And>k x. k \<in> set on \<Longrightarrow> x @ fst suffixes \<noteq> k"
  shows "key_of on (merge_columns left right on suffixes) (from_right left right on r)
         = key_of on (columns right) r"
proof -
  have "key_of on (merge_columns left right on suffixes) (from_right left right on r)
        = key_of on (columns left)
            (map (\<lambda>c. if c \<in> set on then r ! index_of (columns right) c else NaN) (columns left))"
    unfolding from_right_def by (rule key_of_merge) (use assms in simp_all)
  then show ?thesis using assms(1) by (simp add: key_of_right_keys)
qed


lemma merge_row_structure:
  assumes merge: "pd_merge left right on suffixes = Inr out"
    and rl: "rectangular left"
    and sfx': "\<forall>k\<in>set on. \<forall>x. x @ fst suffixes \<noteq> k"
    and row: "row \<in> set (rows out)"
  obtains
    (both) l r where "l \<in> set (rows left)" "r \<in> set (rows right)"
      "key_of on (columns right) r = key_of on (columns left) l"
      "row = l @ drop_labels on (columns right) r"
      "key_of on (columns out) row = key_of on (columns left) l"
      "length l = length (columns left)"
  | (left_only) l where "l \<in> set (rows left)"
      "\<forall>r\<in>set (rows right). key_of on (columns right) r \<noteq> key_of on (columns left) l"
      "row = l @ replicate (length (drop_labels on (columns right) (columns right))) NaN"
      "key_of on (columns out) row = key_of on (columns left) l"
      "length l = length (columns left)"
  | (right_only) r a where "r \<in> set (rows right)"
      "\<forall>l\<in>set (rows left). key_of on (columns left) l \<noteq> key_of on (columns right) r"
      "row = a @ drop_labels on (columns right) r"
      "key_of on (columns out) row = key_of on (columns right) r"
      "length a = length (columns left)"
      "set (drop_labels on (columns left) a) \<subseteq> {NaN}"
proof -
  have sfx: "\<And>k x. k \<in> set on \<Longrightarrow> x @ fst suffixes \<noteq> k" using sfx' by blast
  note m = pd_merge_Inr [OF merge]
  have cols: "columns out = merge_columns left right on suffixes" by (rule m(3))
  from row have "row \<in> set (merge_rows left right on)" by (simp add: m(4))
  from merge_rows_cases [OF this] show thesis
  proof (elim disjE bexE conjE)
    fix l r assume l: "l \<in> set (rows left)" and r: "r \<in> set (rows right)"
      and k: "key_of on (columns right) r = key_of on (columns left) l"
      and eq: "row = l @ drop_labels on (columns right) r"
    have len: "length l = length (columns left)" by (rule rectangularD [OF rl l])
    have "key_of on (columns out) row = key_of on (columns left) l"
      unfolding cols eq by (rule key_of_merge [OF m(1) sfx len])
    then show thesis by (rule both [OF l r k eq _ len])
  next
    fix l assume l: "l \<in> set (rows left)"
      and no: "\<forall>r\<in>set (rows right). key_of on (columns right) r \<noteq> key_of on (columns left) l"
      and eq: "row = l @ replicate (length (drop_labels on (columns right) (columns right))) NaN"
    have len: "length l = length (columns left)" by (rule rectangularD [OF rl l])
    have "key_of on (columns out) row = key_of on (columns left) l"
      unfolding cols eq by (rule key_of_merge [OF m(1) sfx len])
    then show thesis by (rule left_only [OF l no eq _ len])
  next
    fix r assume r: "r \<in> set (rows right)"
      and no: "\<forall>l\<in>set (rows left). key_of on (columns left) l \<noteq> key_of on (columns right) r"
      and eq: "row = from_right left right on r"
    let ?a = "map (\<lambda>c. if c \<in> set on then r ! index_of (columns right) c else NaN) (columns left)"
    have eq': "row = ?a @ drop_labels on (columns right) r" by (simp add: eq from_right_def)
    have "key_of on (columns out) row = key_of on (columns right) r"
      unfolding cols eq by (rule key_of_from_right [OF m(1) sfx])
    moreover have "length ?a = length (columns left)" by simp
    moreover have "set (drop_labels on (columns left) ?a) \<subseteq> {NaN}" by (rule nonkey_right_keys)
    ultimately show thesis by (intro right_only [OF r no eq'])
  qed
qed

lemma merge_row_blocks:
  assumes merge: "pd_merge left right on suffixes = Inr out"
    and rl: "rectangular left"
    and sfx': "\<forall>k\<in>set on. \<forall>x. x @ fst suffixes \<noteq> k"
    and row: "row \<in> set (rows out)"
  shows "key_of on (columns out) row \<in> key_of on (columns left) ` set (rows left) \<or>
         key_of on (columns out) row \<in> key_of on (columns right) ` set (rows right)"
    and "key_of on (columns out) row \<in> key_of on (columns left) ` set (rows left) \<Longrightarrow>
         take (length (columns left)) row \<in> set (rows left) \<and>
         key_of on (columns left) (take (length (columns left)) row) = key_of on (columns out) row"
    and "key_of on (columns out) row \<notin> key_of on (columns left) ` set (rows left) \<Longrightarrow>
         set (drop_labels on (columns left) (take (length (columns left)) row)) \<subseteq> {NaN}"
    and "key_of on (columns out) row \<notin> key_of on (columns right) ` set (rows right) \<Longrightarrow>
         set (drop (length (columns left)) row) \<subseteq> {NaN}"
proof -
  let ?k = "key_of on (columns out) row"
  have "(?k \<in> key_of on (columns left) ` set (rows left) \<or>
         ?k \<in> key_of on (columns right) ` set (rows right)) \<and>
        (?k \<in> key_of on (columns left) ` set (rows left) \<longrightarrow>
         take (length (columns left)) row \<in> set (rows left) \<and>
         key_of on (columns left) (take (length (columns left)) row) = ?k) \<and>
        (?k \<notin> key_of on (columns left) ` set (rows left) \<longrightarrow>
         set (drop_labels on (columns left) (take (length (columns left)) row)) \<subseteq> {NaN}) \<and>
        (?k \<notin> key_of on (columns right) ` set (rows right) \<longrightarrow>
         set (drop (length (columns left)) row) \<subseteq> {NaN})"
  proof (rule merge_row_structure [OF merge rl sfx' row], goal_cases)
    case (1 l r)
    note both = this
    have "?k \<in> key_of on (columns left) ` set (rows left)" using both(1,5) by force
    moreover have "?k \<in> key_of on (columns right) ` set (rows right)" using both(2,3,5) by force
    moreover have "take (length (columns left)) row = l" using both(4,6) by simp
    ultimately show ?thesis using both(1,5) by simp
  next
    case (2 l)
    note left_only = this
    have "?k \<in> key_of on (columns left) ` set (rows left)" using left_only(1,4) by force
    moreover have "take (length (columns left)) row = l" using left_only(3,5) by simp
    moreover have "drop (length (columns left)) row
                   = replicate (length (drop_labels on (columns right) (columns right))) NaN"
      using left_only(3,5) by simp
    ultimately show ?thesis using left_only(1,4) by auto
  next
    case (3 r a)
    note right_only = this
    have "?k \<in> key_of on (columns right) ` set (rows right)" using right_only(1,4) by force
    moreover have "?k \<notin> key_of on (columns left) ` set (rows left)"
      using right_only(2,4) by auto
    moreover have "take (length (columns left)) row = a" using right_only(3,5) by simp
    ultimately show ?thesis using right_only(6) by simp
  qed
  then show "?k \<in> key_of on (columns left) ` set (rows left) \<or>
         ?k \<in> key_of on (columns right) ` set (rows right)"
    and "?k \<in> key_of on (columns left) ` set (rows left) \<Longrightarrow>
         take (length (columns left)) row \<in> set (rows left) \<and>
         key_of on (columns left) (take (length (columns left)) row) = ?k"
    and "?k \<notin> key_of on (columns left) ` set (rows left) \<Longrightarrow>
         set (drop_labels on (columns left) (take (length (columns left)) row)) \<subseteq> {NaN}"
    and "?k \<notin> key_of on (columns right) ` set (rows right) \<Longrightarrow>
         set (drop (length (columns left)) row) \<subseteq> {NaN}"
    by blast+
qed

lemma merge_has_left:
  assumes merge: "pd_merge left right on suffixes = Inr out"
    and rl: "rectangular left"
    and sfx': "\<forall>k\<in>set on. \<forall>x. x @ fst suffixes \<noteq> k"
    and l: "l \<in> set (rows left)"
  shows "\<exists>row\<in>set (rows out). take (length (columns left)) row = l \<and>
           key_of on (columns out) row = key_of on (columns left) l"
proof -
  have sfx: "\<And>k x. k \<in> set on \<Longrightarrow> x @ fst suffixes \<noteq> k" using sfx' by blast
  note m = pd_merge_Inr [OF merge]
  have len: "length l = length (columns left)" by (rule rectangularD [OF rl l])
  have key: "key_of on (columns out) (l @ b) = key_of on (columns left) l" for b
    unfolding m(3) by (rule key_of_merge [OF m(1) sfx len])
  show ?thesis
  proof (cases "\<exists>r\<in>set (rows right). key_of on (columns right) r = key_of on (columns left) l")
    case True
    then obtain r where "r \<in> set (rows right)"
      "key_of on (columns right) r = key_of on (columns left) l" by blast
    from merge_rows_matched [OF l this]
    have "l @ drop_labels on (columns right) r \<in> set (rows out)" by (simp add: m(4))
    then show ?thesis using key len by (intro bexI [of _ "l @ drop_labels on (columns right) r"]) simp_all
  next
    case False
    then have "\<forall>r\<in>set (rows right). key_of on (columns right) r \<noteq> key_of on (columns left) l"
      by blast
    from merge_rows_left_only [OF l this]
    have "l @ replicate (length (drop_labels on (columns right) (columns right))) NaN
          \<in> set (rows out)" by (simp add: m(4))
    then show ?thesis using key len
      by (intro bexI [of _ "l @ replicate (length (drop_labels on (columns right) (columns right))) NaN"])
        simp_all
  qed
qed

lemma merge_has_right:
  assumes merge: "pd_merge left right on suffixes = Inr out"
    and rl: "rectangular left"
    and sfx': "\<forall>k\<in>set on. \<forall>x. x @ fst suffixes \<noteq> k"
    and r: "r \<in> set (rows right)"
  shows "\<exists>row\<in>set (rows out). drop (length (columns left)) row = drop_labels on (columns right) r \<and>
           key_of on (columns out) row = key_of on (columns right) r"
proof -
  have sfx: "\<And>k x. k \<in> set on \<Longrightarrow> x @ fst suffixes \<noteq> k" using sfx' by blast
  note m = pd_merge_Inr [OF merge]
  show ?thesis
  proof (cases "\<exists>l\<in>set (rows left). key_of on (columns left) l = key_of on (columns right) r")
    case True
    then obtain l where l: "l \<in> set (rows left)"
      and k: "key_of on (columns right) r = key_of on (columns left) l" by auto
    have len: "length l = length (columns left)" by (rule rectangularD [OF rl l])
    have "key_of on (columns out) (l @ drop_labels on (columns right) r) = key_of on (columns left) l"
      unfolding m(3) by (rule key_of_merge [OF m(1) sfx len])
    moreover from merge_rows_matched [OF l r k]
    have "l @ drop_labels on (columns right) r \<in> set (rows out)" by (simp add: m(4))
    ultimately show ?thesis using k len
      by (intro bexI [of _ "l @ drop_labels on (columns right) r"]) simp_all
  next
    case False
    then have "\<forall>l\<in>set (rows left). key_of on (columns left) l \<noteq> key_of on (columns right) r"
      by blast
    from merge_rows_right_only [OF r this]
    have "from_right left right on r \<in> set (rows out)" by (simp add: m(4))
    moreover have "key_of on (columns out) (from_right left right on r) = key_of on (columns right) r"
      unfolding m(3) by (rule key_of_from_right [OF m(1) sfx])
    moreover have "drop (length (columns left)) (from_right left right on r)
                   = drop_labels on (columns right) r"
      by (simp add: from_right_def)
    ultimately show ?thesis by (intro bexI [of _ "from_right left right on r"]) simp_all
  qed
qed

lemma example_rectangular:
  "rectangular example_passing" "rectangular example_rushing" "rectangular example_receiving"
  "rectangular fumbles_passing" "rectangular fumbles_rushing"
  by (simp_all add: rectangular_def example_passing_def example_rushing_def
        example_receiving_def fumbles_passing_def fumbles_rushing_def)

text \<open>
  C3, as the code has it. The first join renames every label that passing and rushing
  share (the keys apart) to the label with \<^verbatim>\<open>_pass\<close> and with \<^verbatim>\<open>_rush\<close>. The
  second join passes no suffixes, and \<^verbatim>\<open>pd.merge\<close> then renames a shared label with
  its defaults \<^verbatim>\<open>_x\<close> and \<^verbatim>\<open>_y\<close>: both columns are kept, the merged frame has all
  columns of both sides but the two right keys, and the cells of every receiving row are
  in a merged row.
\<close>

theorem merge_suffixes:
  assumes first: "first_merge passing rushing = Inr players"
    and second: "second_merge players receiving = Inr merged"
    and rect: "rectangular passing" "rectangular rushing"
  shows "(\<forall>c. c \<in> set (columns passing) \<and> c \<in> set (columns rushing) \<and> c \<notin> set key_cols \<longrightarrow>
            c @ ''_pass'' \<in> set (columns players) \<and> c @ ''_rush'' \<in> set (columns players))
       \<and> (\<forall>c. c \<in> set (columns players) \<and> c \<in> set (columns receiving) \<and> c \<notin> set key_cols \<longrightarrow>
            c @ ''_x'' \<in> set (columns merged) \<and> c @ ''_y'' \<in> set (columns merged))
       \<and> length (columns merged) + 2 = length (columns players) + length (columns receiving)
       \<and> (\<forall>r\<in>set (rows receiving). \<exists>row\<in>set (rows merged).
            drop (length (columns players)) row = drop_labels key_cols (columns receiving) r)"
proof -
  note m1 = pd_merge_Inr [OF first [unfolded first_merge_def]]
  note m2 = pd_merge_Inr [OF second [unfolded second_merge_def]]
  have a: "\<forall>c. c \<in> set (columns passing) \<and> c \<in> set (columns rushing) \<and> c \<notin> set key_cols \<longrightarrow>
            c @ ''_pass'' \<in> set (columns players) \<and> c @ ''_rush'' \<in> set (columns players)"
    using suffixed_in_merge_columns [of _ passing rushing key_cols "(''_pass'', ''_rush'')"]
    by (simp add: m1(3))
  have b: "\<forall>c. c \<in> set (columns players) \<and> c \<in> set (columns receiving) \<and> c \<notin> set key_cols \<longrightarrow>
            c @ ''_x'' \<in> set (columns merged) \<and> c @ ''_y'' \<in> set (columns merged)"
    using suffixed_in_merge_columns [of _ players receiving key_cols "(''_x'', ''_y'')"]
    by (simp add: m2(3))
  have "count_list (columns receiving) ''Player'' = 1" "count_list (columns receiving) ''Tm'' = 1"
    using pd_merge_keys_once(2) [OF second [unfolded second_merge_def]]
    by (simp_all add: key_cols_def)
  from length_drop_key_cols [OF this]
  have c: "length (columns merged) + 2 = length (columns players) + length (columns receiving)"
    by (simp add: m2(3) length_merge_columns)
  have rp: "rectangular players"
    using pd_merge_rectangular [OF first [unfolded first_merge_def] rect] .
  have sfx: "\<forall>k\<in>set key_cols. \<forall>x. x @ fst (''_x'', ''_y'') \<noteq> k"
    using key_not_suffixed(3) by simp
  have d: "\<forall>r\<in>set (rows receiving). \<exists>row\<in>set (rows merged).
            drop (length (columns players)) row = drop_labels key_cols (columns receiving) r"
    using merge_has_right [OF second [unfolded second_merge_def] rp sfx] by blast
  from a b c d show ?thesis by blast
qed

text \<open>The two joins on the tables with the shared label \<^verbatim>\<open>Fmb\<close>.\<close>

lemma fumbles_first:
  "first_merge fumbles_passing fumbles_rushing
     = Inr \<lparr>columns = [''Player'', ''Tm'', ''Yds_pass'', ''Yds_rush'', ''Fmb''],
            rows = [[Str ''Josh Allen'', Str ''BUF'', Num 4000, Num 500, Num 1]]\<rparr>"
  by code_simp

lemma fumbles_second:
  "second_merge \<lparr>columns = [''Player'', ''Tm'', ''Yds_pass'', ''Yds_rush'', ''Fmb''],
            rows = [[Str ''Josh Allen'', Str ''BUF'', Num 4000, Num 500, Num 1]]\<rparr>
          fumbles_receiving
     = Inr \<lparr>columns = [''Player'', ''Tm'', ''Yds_pass'', ''Yds_rush'', ''Fmb_x'', ''Rec'', ''Fmb_y''],
            rows = [[Str ''Josh Allen'', Str ''BUF'', Num 4000, Num 500, Num 1, Num 1, Num 2]]\<rparr>"
  by code_simp

text \<open>
  C3 as stated fails in its second half: \<^verbatim>\<open>Fmb\<close> is a label of both sides of the
  second join, and the result has \<^verbatim>\<open>Fmb_x\<close> with the rushing value 1 and
  \<^verbatim>\<open>Fmb_y\<close> with the receiving value 2, and no column \<^verbatim>\<open>Fmb\<close>.
\<close>

theorem second_merge_unsuffixed_counterexample:
  "first_merge fumbles_passing fumbles_rushing
     = Inr \<lparr>columns = [''Player'', ''Tm'', ''Yds_pass'', ''Yds_rush'', ''Fmb''],
            rows = [[Str ''Josh Allen'', Str ''BUF'', Num 4000, Num 500, Num 1]]\<rparr>
   \<and> second_merge \<lparr>columns = [''Player'', ''Tm'', ''Yds_pass'', ''Yds_rush'', ''Fmb''],
            rows = [[Str ''Josh Allen'', Str ''BUF'', Num 4000, Num 500, Num 1]]\<rparr>
          fumbles_receiving
     = Inr \<lparr>columns = [''Player'', ''Tm'', ''Yds_pass'', ''Yds_rush'', ''Fmb_x'', ''Rec'', ''Fmb_y''],
            rows = [[Str ''Josh Allen'', Str ''BUF'', Num 4000, Num 500, Num 1, Num 1, Num 2]]\<rparr>
   \<and> ''Fmb'' \<in> set (columns fumbles_receiving)
   \<and> ''Fmb'' \<in> set [''Player'', ''Tm'', ''Yds_pass'', ''Yds_rush'', ''Fmb'']
   \<and> ''Fmb'' \<notin> set [''Player'', ''Tm'', ''Yds_pass'', ''Yds_rush'', ''Fmb_x'', ''Rec'', ''Fmb_y'']"
  using fumbles_first fumbles_second by (simp add: fumbles_receiving_def)

text \<open>On the same tables both joins return, and the shared labels are suffixed.\<close>

theorem merge_suffixes_witness:
  "\<exists>players merged.
     first_merge fumbles_passing fumbles_rushing = Inr players \<and>
     second_merge players fumbles_receiving = Inr merged \<and>
     rectangular fumbles_passing \<and> rectangular fumbles_rushing \<and>
     ''Yds'' \<in> set (columns fumbles_passing) \<and> ''Yds'' \<in> set (columns fumbles_rushing) \<and>
     ''Yds_pass'' \<in> set (columns players) \<and> ''Yds_rush'' \<in> set (columns players) \<and>
     ''Fmb'' \<in> set (columns players) \<and> ''Fmb'' \<in> set (columns fumbles_receiving) \<and>
     ''Fmb_x'' \<in> set (columns merged) \<and> ''Fmb_y'' \<in> set (columns merged) \<and>
     length (columns merged) + 2 = length (columns players) + length (columns fumbles_receiving)"
proof -
  let ?J = "\<lparr>columns = [''Player'', ''Tm'', ''Yds_pass'', ''Yds_rush'', ''Fmb''],
            rows = [[Str ''Josh Allen'', Str ''BUF'', Num 4000, Num 500, Num 1]]\<rparr>"
  let ?K = "\<lparr>columns = [''Player'', ''Tm'', ''Yds_pass'', ''Yds_rush'', ''Fmb_x'', ''Rec'', ''Fmb_y''],
            rows = [[Str ''Josh Allen'', Str ''BUF'', Num 4000, Num 500, Num 1, Num 1, Num 2]]\<rparr>"
  note main = merge_suffixes [OF fumbles_first fumbles_second example_rectangular(4,5)]
  have in1: "''Yds'' \<in> set (columns fumbles_passing)" "''Yds'' \<in> set (columns fumbles_rushing)"
    "''Fmb'' \<in> set (columns ?J)" "''Fmb'' \<in> set (columns fumbles_receiving)"
    "''Yds'' \<notin> set key_cols" "''Fmb'' \<notin> set key_cols"
    by (simp_all add: fumbles_passing_def fumbles_rushing_def fumbles_receiving_def key_cols_def)
  from main in1 have "''Yds'' @ ''_pass'' \<in> set (columns ?J)" "''Yds'' @ ''_rush'' \<in> set (columns ?J)"
    "''Fmb'' @ ''_x'' \<in> set (columns ?K)" "''Fmb'' @ ''_y'' \<in> set (columns ?K)"
    by blast+
  then have sfx: "''Yds_pass'' \<in> set (columns ?J)" "''Yds_rush'' \<in> set (columns ?J)"
    "''Fmb_x'' \<in> set (columns ?K)" "''Fmb_y'' \<in> set (columns ?K)"
    by simp_all
  from main have len: "length (columns ?K) + 2 = length (columns ?J) + length (columns fumbles_receiving)"
    by blast
  show ?thesis
    using fumbles_first fumbles_second example_rectangular(4,5) in1(1-4) sfx len
    by (intro exI [of _ ?J] exI [of _ ?K] conjI)
qed

section \<open>Scorer: the fantasy points\<close>




lemma add_float_Num:
  "c \<noteq> NaN \<Longrightarrow> mul_float w c = Inr u \<Longrightarrow> add_cell (Num a, u) = Inr s \<Longrightarrow>
   \<exists>x. c = Num x \<and> s = Num (fl (a + fl (x * w)))"
  by (cases c) auto









lemma fillna_simps:
  "columns (fillna v df) = columns df"
  "rows (fillna v df) = map (map (\<lambda>c. if c = NaN then Num v else c)) (rows df)"
  by (simp_all add: fillna_def)



lemma merged_players_Inr:
  assumes "merged_players passing rushing receiving = Inr merged"
  obtains players both where "first_merge passing rushing = Inr players"
    "second_merge players receiving = Inr both" "merged = fillna 0 both"
  using assms by (auto simp: merged_players_def bind_err_Inr)





subsection \<open>Rounding to float64\<close>

declare bit_length.simps [simp del]

















subsection \<open>The scored frame\<close>


text \<open>The example season: the scored frame, whose first row is the spec's input.\<close>

lemma example_merged_run:
  "merged_players example_passing example_rushing example_receiving = Inr example_merged"
  by code_simp



text \<open>
  C1 as stated fails: the player with three rushing yards and nothing else gets
  \<^verbatim>\<open>0.30000000000000004\<close> fantasy points, which is not the linear combination
  3/10 of the row's stat columns.
\<close>

lemma three_yards_run:
  "score_players three_yards_passing three_yards_rushing three_yards_receiving
   = Inr three_yards_players"
  by code_simp

theorem fantasy_points_exact_counterexample:
  "score_players three_yards_passing three_yards_rushing three_yards_receiving
     = Inr three_yards_players \<and>
   rows three_yards_players ! 0 \<in> set (rows three_yards_players) \<and>
   row_cell three_yards_players (rows three_yards_players ! 0) ''Yds_pass'' = Num 0 \<and>
   row_cell three_yards_players (rows three_yards_players ! 0) ''TD_pass'' = Num 0 \<and>
   row_cell three_yards_players (rows three_yards_players ! 0) ''Int'' = Num 0 \<and>
   row_cell three_yards_players (rows three_yards_players ! 0) ''Yds_rush'' = Num 3 \<and>
   row_cell three_yards_players (rows three_yards_players ! 0) ''TD_rush'' = Num 0 \<and>
   row_cell three_yards_players (rows three_yards_players ! 0) ''Rec'' = Num 0 \<and>
   row_cell three_yards_players (rows three_yards_players ! 0) ''Yds'' = Num 0 \<and>
   row_cell three_yards_players (rows three_yards_players ! 0) ''TD'' = Num 0 \<and>
   row_cell three_yards_players (rows three_yards_players ! 0) ''FantasyPoints''
     = Num (1351079888211149 / 4503599627370496) \<and>
   spec_fantasy_points 0 0 0 3 0 0 0 0 = 3 / 10 \<and>
   row_cell three_yards_players (rows three_yards_players ! 0) ''FantasyPoints''
     \<noteq> Num (spec_fantasy_points 0 0 0 3 0 0 0 0)"
  by (simp add: three_yards_run) (simp add: three_yards_players_def row_cell_def spec_fantasy_points_def)

section \<open>Merger: rows and zero fill\<close>

lemma drop_labels_append2:
  "length a1 = length c1 \<Longrightarrow>
   drop_labels on (c1 @ c2) (a1 @ a2) = drop_labels on c1 a1 @ drop_labels on c2 a2"
  by (simp add: drop_labels_def)

lemma drop_labels_rename:
  "\<forall>c\<in>set cols. (f c \<in> set on) = (c \<in> set on) \<Longrightarrow>
   drop_labels on (map f cols) xs = drop_labels on cols xs"
proof (induction cols arbitrary: xs)
  case Nil
  then show ?case by (simp add: drop_labels_def)
next
  case (Cons c cols)
  show ?case
  proof (cases xs)
    case Nil
    then show ?thesis by (simp add: drop_labels_def)
  next
    case xs: (Cons y ys)
    from Cons.prems have "drop_labels on (map f cols) ys = drop_labels on cols ys"
      by (intro Cons.IH) simp
    with Cons.prems xs show ?thesis by (simp add: drop_labels_def)
  qed
qed

lemma drop_labels_none:
  "(\<And>c. c \<in> set cols \<Longrightarrow> c \<notin> set on) \<Longrightarrow> length xs = length cols \<Longrightarrow>
   drop_labels on cols xs = xs"
proof (induction cols arbitrary: xs)
  case Nil
  then show ?case by (simp add: drop_labels_def)
next
  case (Cons c cols)
  then obtain y ys where xs: "xs = y # ys" "length ys = length cols" by (cases xs) auto
  have "drop_labels on cols ys = ys" by (rule Cons.IH) (simp_all add: Cons.prems xs)
  with Cons.prems(1) [of c] xs show ?case by (simp add: drop_labels_def)
qed

lemma drop_labels_map: "drop_labels on cols (map f xs) = map f (drop_labels on cols xs)"
proof (induction cols arbitrary: xs)
  case Nil
  then show ?case by (simp add: drop_labels_def)
next
  case (Cons c cols)
  show ?case
  proof (cases xs)
    case Nil
    then show ?thesis by (simp add: drop_labels_def)
  next
    case (Cons y ys)
    with Cons.IH [of ys] show ?thesis by (simp add: drop_labels_def)
  qed
qed

lemma drop_labels_merge_columns:
  assumes len1: "length a1 = length (columns left)"
    and len2: "length a2 = length (drop_labels on (columns right) (columns right))"
    and sfx1: "\<forall>k\<in>set on. \<forall>x. x @ fst suffixes \<noteq> k"
    and sfx2: "\<forall>k\<in>set on. \<forall>x. x @ snd suffixes \<noteq> k"
  shows "drop_labels on (merge_columns left right on suffixes) (a1 @ a2)
         = drop_labels on (columns left) a1 @ a2"
proof -
  let ?l = "renamer (overlap left right on) (fst suffixes)"
  let ?r = "renamer (overlap left right on) (snd suffixes)"
  let ?other = "drop_labels on (columns right) (columns right)"
  have l: "(?l c \<in> set on) = (c \<in> set on)" for c
    using sfx1 by (auto simp: renamer_def in_overlap)
  have r: "?r c \<notin> set on" if "c \<in> set ?other" for c
    using sfx2 that by (auto simp: renamer_def set_drop_labels_labels)
  have "drop_labels on (merge_columns left right on suffixes) (a1 @ a2)
        = drop_labels on (map ?l (columns left)) a1 @ drop_labels on (map ?r ?other) a2"
    unfolding merge_columns_def using len1 by (intro drop_labels_append2) simp
  also have "drop_labels on (map ?l (columns left)) a1 = drop_labels on (columns left) a1"
    by (rule drop_labels_rename) (simp add: l)
  also have "drop_labels on (map ?r ?other) a2 = a2"
    by (rule drop_labels_none) (use r len2 in auto)
  finally show ?thesis .
qed

lemma key_of_map:
  "\<forall>k\<in>set on. index_of cols k < length row \<Longrightarrow>
   key_of on cols (map f row) = map f (key_of on cols row)"
  by (simp add: key_of_def)


lemma set_table_keys: "set (table_keys df) = key_of key_cols (columns df) ` set (rows df)"
  by (simp add: table_keys_def)

lemma suffix_conditions:
  "\<forall>k\<in>set key_cols. \<forall>x. x @ fst (''_pass'', ''_rush'') \<noteq> k"
  "\<forall>k\<in>set key_cols. \<forall>x. x @ snd (''_pass'', ''_rush'') \<noteq> k"
  "\<forall>k\<in>set key_cols. \<forall>x. x @ fst (''_x'', ''_y'') \<noteq> k"
  using key_not_suffixed by simp_all

lemma first_merge_keys:
  assumes first: "first_merge passing rushing = Inr players" and rect: "rectangular passing"
  shows "set (table_keys players) = set (table_keys passing) \<union> set (table_keys rushing)"
proof -
  note f = first [unfolded first_merge_def]
  show ?thesis
  proof (intro set_eqI iffI)
    fix k assume "k \<in> set (table_keys players)"
    then obtain j where j: "j \<in> set (rows players)" and k: "k = key_of key_cols (columns players) j"
      by (auto simp: set_table_keys)
    from merge_row_blocks(1) [OF f rect suffix_conditions(1) j]
    show "k \<in> set (table_keys passing) \<union> set (table_keys rushing)"
      by (simp add: set_table_keys k)
  next
    fix k assume "k \<in> set (table_keys passing) \<union> set (table_keys rushing)"
    then consider l where "l \<in> set (rows passing)" "k = key_of key_cols (columns passing) l"
      | r where "r \<in> set (rows rushing)" "k = key_of key_cols (columns rushing) r"
      by (auto simp: set_table_keys)
    then show "k \<in> set (table_keys players)"
    proof cases
      case 1
      from merge_has_left [OF f rect suffix_conditions(1) 1(1)] 1(2) show ?thesis
        by (force simp: set_table_keys)
    next
      case 2
      from merge_has_right [OF f rect suffix_conditions(1) 2(1)] 2(2) show ?thesis
        by (force simp: set_table_keys)
    qed
  qed
qed

lemma both_merged_complete:
  assumes first: "first_merge passing rushing = Inr players"
    and second: "second_merge players receiving = Inr both"
    and rect: "rectangular passing" "rectangular rushing"
    and k: "k \<in> set (table_keys passing) \<union> set (table_keys rushing) \<union> set (table_keys receiving)"
  shows "\<exists>row\<in>set (rows both). key_of key_cols (columns both) row = k"
proof -
  note s = second [unfolded second_merge_def]
  have rp: "rectangular players"
    by (rule pd_merge_rectangular [OF first [unfolded first_merge_def] rect])
  from k first_merge_keys [OF first rect(1)]
  consider "k \<in> set (table_keys players)" | "k \<in> set (table_keys receiving)" by blast
  then show ?thesis
  proof cases
    case 1
    then obtain j where j: "j \<in> set (rows players)" "k = key_of key_cols (columns players) j"
      by (auto simp: set_table_keys)
    from merge_has_left [OF s rp suffix_conditions(3) j(1)] j(2) show ?thesis by auto
  next
    case 2
    then obtain r where r: "r \<in> set (rows receiving)" "k = key_of key_cols (columns receiving) r"
      by (auto simp: set_table_keys)
    from merge_has_right [OF s rp suffix_conditions(3) r(1)] r(2) show ?thesis by auto
  qed
qed

lemma both_merged_blocks:
  assumes first: "first_merge passing rushing = Inr players"
    and second: "second_merge players receiving = Inr both"
    and rect: "rectangular passing" "rectangular rushing" "rectangular receiving"
    and row: "row \<in> set (rows both)"
  shows "key_of key_cols (columns both) row
           \<in> set (table_keys passing) \<union> set (table_keys rushing) \<union> set (table_keys receiving)"
    and "key_of key_cols (columns both) row \<notin> set (table_keys passing) \<Longrightarrow>
           set (passing_cells passing row) \<subseteq> {NaN}"
    and "key_of key_cols (columns both) row \<notin> set (table_keys rushing) \<Longrightarrow>
           set (rushing_cells passing rushing row) \<subseteq> {NaN}"
    and "key_of key_cols (columns both) row \<notin> set (table_keys receiving) \<Longrightarrow>
           set (receiving_cells passing rushing row) \<subseteq> {NaN}"
    and "\<forall>k\<in>set key_cols. index_of (columns both) k < length row"
proof -
  let ?k = "key_of key_cols (columns both) row"
  let ?nP = "length (columns passing)"
  let ?nR = "length (other_columns rushing)"
  let ?nJ = "length (columns players)"
  note f = first [unfolded first_merge_def]
  note s = second [unfolded second_merge_def]
  have rp: "rectangular players" by (rule pd_merge_rectangular [OF f rect(1,2)])
  have nJ: "?nJ = ?nP + ?nR"
    by (simp add: pd_merge_Inr(3) [OF f] length_merge_columns other_columns_def)
  have "row \<in> set (merge_rows players receiving key_cols)"
    using row by (simp add: pd_merge_Inr(4) [OF s])
  from length_merge_row [OF rp rect(3) this]
  have len: "?nJ \<le> length row" by simp
  note b = merge_row_blocks [OF s rp suffix_conditions(3) row]
  note keys = first_merge_keys [OF first rect(1)]
  have split: "take ?nJ row = take ?nP row @ take ?nR (drop ?nP row)"
    unfolding nJ by (rule take_add)
  have lens: "length (take ?nP row) = ?nP" "length (take ?nR (drop ?nP row)) = ?nR"
    using len nJ by simp_all
  show "?k \<in> set (table_keys passing) \<union> set (table_keys rushing) \<union> set (table_keys receiving)"
    using b(1) keys by (auto simp: set_table_keys)
  show "set (receiving_cells passing rushing row) \<subseteq> {NaN}"
    if "?k \<notin> set (table_keys receiving)"
    using b(4) that by (simp add: set_table_keys receiving_cells_def nJ)
  have parts: "(?k \<notin> set (table_keys passing) \<longrightarrow> set (passing_cells passing row) \<subseteq> {NaN}) \<and>
               (?k \<notin> set (table_keys rushing) \<longrightarrow> set (rushing_cells passing rushing row) \<subseteq> {NaN})"
  proof (cases "?k \<in> set (table_keys players)")
    case True
    then have inJ: "?k \<in> key_of key_cols (columns players) ` set (rows players)"
      by (simp add: set_table_keys)
    from b(2) [OF inJ] have a: "take ?nJ row \<in> set (rows players)"
      and ka: "key_of key_cols (columns players) (take ?nJ row) = ?k" by simp_all
    note c = merge_row_blocks [OF f rect(1) suffix_conditions(1) a]
    have tp: "take ?nP (take ?nJ row) = take ?nP row" using nJ by (simp add: min_def)
    have dp: "drop ?nP (take ?nJ row) = take ?nR (drop ?nP row)"
      using nJ by (simp add: drop_take)
    show ?thesis
      using c(3) c(4) unfolding ka tp dp
      by (simp add: set_table_keys passing_cells_def rushing_cells_def)
  next
    case False
    then have notJ: "?k \<notin> key_of key_cols (columns players) ` set (rows players)"
      by (simp add: set_table_keys)
    have "drop_labels key_cols (columns players) (take ?nJ row)
          = drop_labels key_cols (columns players) (take ?nP row @ take ?nR (drop ?nP row))"
      by (simp only: split)
    also have "\<dots> = drop_labels key_cols (columns passing) (take ?nP row) @ take ?nR (drop ?nP row)"
      unfolding pd_merge_Inr(3) [OF f]
      by (rule drop_labels_merge_columns [OF lens(1) _ suffix_conditions(1,2)])
        (use lens(2) in \<open>simp only: other_columns_def\<close>)
    finally have "drop_labels key_cols (columns players) (take ?nJ row)
          = drop_labels key_cols (columns passing) (take ?nP row) @ take ?nR (drop ?nP row)" .
    with b(3) [OF notJ] show ?thesis
      by (simp add: passing_cells_def rushing_cells_def)
  qed
  show "set (passing_cells passing row) \<subseteq> {NaN}" if "?k \<notin> set (table_keys passing)"
    using parts that by blast
  show "set (rushing_cells passing rushing row) \<subseteq> {NaN}" if "?k \<notin> set (table_keys rushing)"
    using parts that by blast
  show "\<forall>k\<in>set key_cols. index_of (columns both) k < length row"
  proof
    fix k assume k: "k \<in> set key_cols"
    have "index_of (columns both) k = index_of (columns players) k"
      unfolding pd_merge_Inr(3) [OF s]
      using k pd_merge_Inr(1) [OF s] suffix_conditions(3) by (intro key_index_merge) auto
    moreover have "index_of (columns players) k < ?nJ"
      using k pd_merge_Inr(1) [OF s] by (intro index_of_less) auto
    ultimately show "index_of (columns both) k < length row" using len by simp
  qed
qed


lemma filled_cells:
  "passing_cells passing (map f row) = map f (passing_cells passing row)"
  "rushing_cells passing rushing (map f row) = map f (rushing_cells passing rushing row)"
  "receiving_cells passing rushing (map f row) = map f (receiving_cells passing rushing row)"
  by (simp_all add: passing_cells_def rushing_cells_def receiving_cells_def
        take_map drop_map drop_labels_map)

lemma filled_zero:
  "set xs \<subseteq> {NaN} \<Longrightarrow> set (map (\<lambda>c. if c = NaN then Num 0 else c) xs) \<subseteq> {Num 0}"
  by auto

lemma filled_row:
  assumes first: "first_merge passing rushing = Inr players"
    and second: "second_merge players receiving = Inr both"
    and rect: "rectangular passing" "rectangular rushing" "rectangular receiving"
    and row: "row \<in> set (rows both)"
    and k: "key_of key_cols (columns both) row = k"
  shows "(k \<notin> set (table_keys passing) \<longrightarrow>
            set (passing_cells passing (map (\<lambda>c. if c = NaN then Num 0 else c) row)) \<subseteq> {Num 0}) \<and>
         (k \<notin> set (table_keys rushing) \<longrightarrow>
            set (rushing_cells passing rushing (map (\<lambda>c. if c = NaN then Num 0 else c) row)) \<subseteq> {Num 0}) \<and>
         (k \<notin> set (table_keys receiving) \<longrightarrow>
            set (receiving_cells passing rushing (map (\<lambda>c. if c = NaN then Num 0 else c) row)) \<subseteq> {Num 0})"
  using both_merged_blocks(2,3,4) [OF first second rect row]
  unfolding k filled_cells by (intro conjI impI filled_zero) blast+

text \<open>
  C2. Let a (player, team) pair of identifiers, neither of them missing, be a key of at
  least one of the three tables. Whenever lines 74 to 78 return on rectangular tables,
  the merged frame has a row with that key in which the cells of every table that does
  not have the pair are all 0. When the identifiers are strings, this holds of every
  row with that key.
\<close>

theorem merged_players_zero_filled:
  assumes run: "merged_players passing rushing receiving = Inr players"
    and rect: "rectangular passing" "rectangular rushing" "rectangular receiving"
    and key: "pl \<noteq> NaN" "tm \<noteq> NaN"
    and present: "[pl, tm] \<in> set (table_keys passing) \<union> set (table_keys rushing)
                             \<union> set (table_keys receiving)"
  shows "(\<exists>row\<in>set (rows players).
            key_of key_cols (columns players) row = [pl, tm] \<and>
            ([pl, tm] \<notin> set (table_keys passing) \<longrightarrow> set (passing_cells passing row) \<subseteq> {Num 0}) \<and>
            ([pl, tm] \<notin> set (table_keys rushing) \<longrightarrow>
               set (rushing_cells passing rushing row) \<subseteq> {Num 0}) \<and>
            ([pl, tm] \<notin> set (table_keys receiving) \<longrightarrow>
               set (receiving_cells passing rushing row) \<subseteq> {Num 0}))
       \<and> ((\<exists>s t. pl = Str s \<and> tm = Str t) \<longrightarrow>
          (\<forall>row\<in>set (rows players).
            key_of key_cols (columns players) row = [pl, tm] \<longrightarrow>
            ([pl, tm] \<notin> set (table_keys passing) \<longrightarrow> set (passing_cells passing row) \<subseteq> {Num 0}) \<and>
            ([pl, tm] \<notin> set (table_keys rushing) \<longrightarrow>
               set (rushing_cells passing rushing row) \<subseteq> {Num 0}) \<and>
            ([pl, tm] \<notin> set (table_keys receiving) \<longrightarrow>
               set (receiving_cells passing rushing row) \<subseteq> {Num 0})))"
proof -
  let ?fill = "\<lambda>c. if c = NaN then Num 0 else c"
  from run obtain both_merged first_merged where
    first: "first_merge passing rushing = Inr first_merged"
    and second: "second_merge first_merged receiving = Inr both_merged"
    and players: "players = fillna 0 both_merged"
    by (rule merged_players_Inr)
  have cols: "columns players = columns both_merged"
    and rws: "rows players = map (map ?fill) (rows both_merged)"
    by (simp_all add: players fillna_simps)
  have keyf: "key_of key_cols (columns players) (map ?fill row)
              = map ?fill (key_of key_cols (columns both_merged) row)"
    if "row \<in> set (rows both_merged)" for row
    unfolding cols
    by (rule key_of_map) (rule both_merged_blocks(5) [OF first second rect that])
  have part1: "\<exists>row\<in>set (rows players).
            key_of key_cols (columns players) row = [pl, tm] \<and>
            ([pl, tm] \<notin> set (table_keys passing) \<longrightarrow> set (passing_cells passing row) \<subseteq> {Num 0}) \<and>
            ([pl, tm] \<notin> set (table_keys rushing) \<longrightarrow>
               set (rushing_cells passing rushing row) \<subseteq> {Num 0}) \<and>
            ([pl, tm] \<notin> set (table_keys receiving) \<longrightarrow>
               set (receiving_cells passing rushing row) \<subseteq> {Num 0})"
  proof -
    from both_merged_complete [OF first second rect(1,2) present]
    obtain row where row: "row \<in> set (rows both_merged)"
      and k: "key_of key_cols (columns both_merged) row = [pl, tm]" by blast
    have "map ?fill row \<in> set (rows players)" using row by (simp add: rws)
    moreover have "key_of key_cols (columns players) (map ?fill row) = [pl, tm]"
      using key by (simp add: keyf [OF row] k)
    ultimately show ?thesis
      using filled_row [OF first second rect row k] by (intro bexI [of _ "map ?fill row"]) simp_all
  qed
  have part2: "\<forall>row\<in>set (rows players).
            key_of key_cols (columns players) row = [pl, tm] \<longrightarrow>
            ([pl, tm] \<notin> set (table_keys passing) \<longrightarrow> set (passing_cells passing row) \<subseteq> {Num 0}) \<and>
            ([pl, tm] \<notin> set (table_keys rushing) \<longrightarrow>
               set (rushing_cells passing rushing row) \<subseteq> {Num 0}) \<and>
            ([pl, tm] \<notin> set (table_keys receiving) \<longrightarrow>
               set (receiving_cells passing rushing row) \<subseteq> {Num 0})"
    if str: "\<exists>s t. pl = Str s \<and> tm = Str t"
  proof (intro ballI impI)
    fix row' assume r': "row' \<in> set (rows players)"
      and k': "key_of key_cols (columns players) row' = [pl, tm]"
    from r' obtain row where row: "row \<in> set (rows both_merged)" and eq: "row' = map ?fill row"
      by (auto simp: rws)
    from str obtain s t where st: "pl = Str s" "tm = Str t" by blast
    have "map ?fill (key_of key_cols (columns both_merged) row) = [Str s, Str t]"
      using k' by (simp add: eq keyf [OF row] st)
    then have k: "key_of key_cols (columns both_merged) row = [pl, tm]"
      unfolding st by (auto simp: key_of_def key_cols_def split: if_splits)
    from filled_row [OF first second rect row k]
    show "([pl, tm] \<notin> set (table_keys passing) \<longrightarrow> set (passing_cells passing row') \<subseteq> {Num 0}) \<and>
          ([pl, tm] \<notin> set (table_keys rushing) \<longrightarrow>
               set (rushing_cells passing rushing row') \<subseteq> {Num 0}) \<and>
          ([pl, tm] \<notin> set (table_keys receiving) \<longrightarrow>
               set (receiving_cells passing rushing row') \<subseteq> {Num 0})"
      unfolding eq .
  qed
  from part1 part2 show ?thesis by blast
qed

text \<open>
  Travis Kelce is in the receiving table only: his merged row has 0 in the three passing
  and the two rushing columns.
\<close>

theorem merged_players_zero_filled_witness:
  "merged_players example_passing example_rushing example_receiving = Inr example_merged \<and>
   rectangular example_passing \<and> rectangular example_rushing \<and> rectangular example_receiving \<and>
   [Str ''Travis Kelce'', Str ''KAN''] \<in> set (table_keys example_receiving) \<and>
   [Str ''Travis Kelce'', Str ''KAN''] \<notin> set (table_keys example_passing) \<and>
   [Str ''Travis Kelce'', Str ''KAN''] \<notin> set (table_keys example_rushing) \<and>
   rows example_merged ! 2 \<in> set (rows example_merged) \<and>
   key_of key_cols (columns example_merged) (rows example_merged ! 2)
     = [Str ''Travis Kelce'', Str ''KAN''] \<and>
   set (passing_cells example_passing (rows example_merged ! 2)) \<subseteq> {Num 0} \<and>
   set (rushing_cells example_passing example_rushing (rows example_merged ! 2)) \<subseteq> {Num 0} \<and>
   receiving_cells example_passing example_rushing (rows example_merged ! 2)
     = [Num 7, Num 90, Num 1]"
proof -
  let ?k = "[Str ''Travis Kelce'', Str ''KAN'']"
  have keys: "?k \<in> set (table_keys example_receiving)"
    "?k \<notin> set (table_keys example_passing)" "?k \<notin> set (table_keys example_rushing)"
    by (simp_all add: table_keys_def key_of_def key_cols_def example_passing_def
          example_rushing_def example_receiving_def)
  have row: "rows example_merged ! 2 \<in> set (rows example_merged)"
    by (simp add: example_merged_def)
  have k: "key_of key_cols (columns example_merged) (rows example_merged ! 2) = ?k"
    by (simp add: key_of_def key_cols_def example_merged_def)
  have rc: "receiving_cells example_passing example_rushing (rows example_merged ! 2)
            = [Num 7, Num 90, Num 1]"
    by (simp add: receiving_cells_def other_columns_def drop_labels_def key_cols_def
          example_passing_def example_rushing_def example_merged_def)
  have present: "?k \<in> set (table_keys example_passing) \<union> set (table_keys example_rushing)
                     \<union> set (table_keys example_receiving)"
    using keys(1) by simp
  note main = merged_players_zero_filled [OF example_merged_run example_rectangular(1,2,3) _ _ present]
  have "\<forall>row\<in>set (rows example_merged).
            key_of key_cols (columns example_merged) row = ?k \<longrightarrow>
            (?k \<notin> set (table_keys example_passing) \<longrightarrow>
               set (passing_cells example_passing row) \<subseteq> {Num 0}) \<and>
            (?k \<notin> set (table_keys example_rushing) \<longrightarrow>
               set (rushing_cells example_passing example_rushing row) \<subseteq> {Num 0}) \<and>
            (?k \<notin> set (table_keys example_receiving) \<longrightarrow>
               set (receiving_cells example_passing example_rushing row) \<subseteq> {Num 0})"
    using main by blast
  with row k keys have
    "set (passing_cells example_passing (rows example_merged ! 2)) \<subseteq> {Num 0}"
    "set (rushing_cells example_passing example_rushing (rows example_merged ! 2)) \<subseteq> {Num 0}"
    by blast+
  with example_merged_run example_rectangular(1,2,3) keys row k rc show ?thesis by blast
qed

end
